theory Spec2Isabelle
  imports Main "HOL-Library.AList"
begin

section \<open>Strings as Python sees them\<close>

text \<open>
  Texts are modelled as \<open>string\<close>, one \<open>char\<close> per code point (the Latin-1 range).
  \<open>is_space\<close> is the whitespace test that \<open>str.split()\<close> and \<open>str.strip()\<close> share:
  TAB, LF, VT, FF, CR, the separators FS, GS, RS, US, the blank, NEL and the no-break space.
\<close>

definition is_space :: "char \<Rightarrow> bool" where
  "is_space c =
     (let n = (of_char c :: nat)
      in (9 \<le> n \<and> n \<le> 13) \<or> (28 \<le> n \<and> n \<le> 32) \<or> n = 133 \<or> n = 160)"

text \<open>\<open>text.split()\<close>: the maximal runs of non-whitespace characters, in order.\<close>

fun split_acc :: "string \<Rightarrow> string \<Rightarrow> string list" where
  "split_acc cur [] = (if cur = [] then [] else [cur])"
| "split_acc cur (c # cs) =
     (if is_space c
      then (if cur = [] then split_acc [] cs else cur # split_acc [] cs)
      else split_acc (cur @ [c]) cs)"

definition py_split :: "string \<Rightarrow> string list" where
  "py_split s = split_acc [] s"

text \<open>\<open>text.strip()\<close>: whitespace removed at both ends.\<close>

definition py_strip :: "string \<Rightarrow> string" where
  "py_strip s = rev (dropWhile is_space (rev (dropWhile is_space s)))"

text \<open>\<open>sep.join(parts)\<close>.\<close>

fun py_join :: "string \<Rightarrow> string list \<Rightarrow> string" where
  "py_join sep [] = []"
| "py_join sep [x] = x"
| "py_join sep (x # y # ys) = x @ sep @ py_join sep (y # ys)"

text \<open>
  \<open>xs[start:end]\<close> for integers of either sign: a negative bound counts from the end, and
  both bounds are clamped to the list.
\<close>

definition py_slice :: "'a list \<Rightarrow> int \<Rightarrow> int \<Rightarrow> 'a list" where
  "py_slice xs start end =
     (let n = int (length xs);
          lo = (if start < 0 then max 0 (n + start) else min start n);
          hi = (if end < 0 then max 0 (n + end) else min end n)
      in take (nat (hi - lo)) (drop (nat lo) xs))"

section \<open>config.py\<close>

definition CHUNK_SIZE_WORDS :: int where "CHUNK_SIZE_WORDS = 500"
definition CHUNK_OVERLAP_WORDS :: int where "CHUNK_OVERLAP_WORDS = 50"
definition TOP_K_CHUNKS :: int where "TOP_K_CHUNKS = 5"
definition MAX_CONTEXT_CHARS :: int where "MAX_CONTEXT_CHARS = 6000"
definition EMBEDDING_MODEL_NAME :: string where
  "EMBEDDING_MODEL_NAME = ''sentence-transformers/all-MiniLM-L6-v2''"

section \<open>ingest.py: the chunker\<close>

text \<open>\<open>step = max(1, chunk_size_words - overlap_words)\<close>.\<close>

definition chunk_step :: "int \<Rightarrow> int \<Rightarrow> int" where
  "chunk_step chunk_size_words overlap_words = max 1 (chunk_size_words - overlap_words)"

text \<open>
  The \<open>while start < len(words)\<close> loop of \<open>chunk_text\<close>, with the list \<open>chunks\<close> built so
  far as an accumulator. The \<open>break\<close> on an empty window returns what has been collected.
\<close>

function chunk_loop :: "string list \<Rightarrow> int \<Rightarrow> int \<Rightarrow> int \<Rightarrow> string list \<Rightarrow> string list" where
  "chunk_loop words chunk_size_words overlap_words start chunks =
     (if start < int (length words)
      then (let end = start + chunk_size_words;
                chunk_words = py_slice words start end
            in if chunk_words = [] then chunks
               else chunk_loop words chunk_size_words overlap_words
                      (start + chunk_step chunk_size_words overlap_words)
                      (chunks @ [py_join '' '' chunk_words]))
      else chunks)"
  by pat_completeness auto
termination
  by (relation "measure (\<lambda>(words, s, ov, start, chunks). nat (int (length words) - start))")
     (auto simp: chunk_step_def)

declare chunk_loop.simps [simp del]

definition chunk_text :: "string \<Rightarrow> int \<Rightarrow> int \<Rightarrow> string list" where
  "chunk_text text chunk_size_words overlap_words =
     (let words = py_split text
      in if words = [] then []
         else chunk_loop words chunk_size_words overlap_words 0 [])"

text \<open>
  The same loop with no termination argument built in: a run that never left the loop would
  be the value \<open>None\<close>.
\<close>

partial_function (option) chunk_while ::
  "string list \<Rightarrow> int \<Rightarrow> int \<Rightarrow> int \<Rightarrow> string list \<Rightarrow> string list option" where
  "chunk_while words chunk_size_words overlap_words start chunks =
     (if start < int (length words)
      then (let end = start + chunk_size_words;
                chunk_words = py_slice words start end
            in if chunk_words = [] then Some chunks
               else chunk_while words chunk_size_words overlap_words
                      (start + chunk_step chunk_size_words overlap_words)
                      (chunks @ [py_join '' '' chunk_words]))
      else Some chunks)"

definition chunk_text_run :: "string \<Rightarrow> int \<Rightarrow> int \<Rightarrow> string list option" where
  "chunk_text_run text chunk_size_words overlap_words =
     (let words = py_split text
      in if words = [] then Some []
         else chunk_while words chunk_size_words overlap_words 0 [])"

section \<open>ingest.py: discovery and text extraction\<close>

text \<open>
  A regular file under the textbook directory, as the build sees it: its resolved path, its
  lowercased suffix, its \<open>stat\<close> values, and what the loader for its format does on it
  (the loaders are external: they return the text or raise).
\<close>

datatype loaded = Loaded string | RaisedRuntimeError string | RaisedException string

record source_file =
  path_str :: string
  suffix_lower :: string
  st_mtime_ns :: int
  st_size :: int
  loader :: loaded

definition SUPPORTED_EXTENSIONS :: "string set" where
  "SUPPORTED_EXTENSIONS = {''.txt'', ''.pdf'', ''.docx'', ''.doc''}"

text \<open>\<open>discover_textbook_files\<close> over the files that \<open>root.rglob\<close> yields, in that order.\<close>

fun discover_textbook_files :: "source_file list \<Rightarrow> source_file list \<times> source_file list" where
  "discover_textbook_files [] = ([], [])"
| "discover_textbook_files (p # ps) =
     (let (supported, unsupported) = discover_textbook_files ps
      in if suffix_lower p \<in> SUPPORTED_EXTENSIONS
         then (p # supported, unsupported)
         else (supported, p # unsupported))"

text \<open>\<open>load_text_from_file\<close>: the pair (text or \<open>None\<close>, reason or \<open>None\<close>).\<close>

definition load_text_from_file :: "source_file \<Rightarrow> string option \<times> string option" where
  "load_text_from_file f =
     (let ext = suffix_lower f
      in if ext = ''.txt'' \<or> ext = ''.pdf'' \<or> ext = ''.docx'' \<or> ext = ''.doc''
         then (case loader f of
                 RaisedRuntimeError msg \<Rightarrow> (None, Some msg)
               | RaisedException msg \<Rightarrow> (None, Some (''Error reading file: '' @ msg))
               | Loaded text \<Rightarrow>
                   if text = [] \<or> py_strip text = []
                   then (None, Some ''File contains no extractable text'')
                   else (Some text, None))
         else (None, Some (''Extension '' @ ext @ '' not supported'')))"

section \<open>build\_index.py\<close>

datatype error =
    FileNotFoundError string
  | RuntimeError string
  | ValueError string
  | IndexError
  | EncodeException
  | DecodeError

record chunk =
  c_id :: string
  c_text :: string
  c_source_file :: string
  c_chunk_index :: nat

record file_record =
  rec_path :: string
  rec_file_id :: string
  rec_mtime_ns :: int
  rec_size :: int
  rec_cache_basename :: string

record index_metadata =
  total_chunks :: nat
  files_indexed :: "file_record list"
  embedding_model :: string
  index_type :: "string option"
  index_built :: bool
  unsupported_files :: "(string \<times> string) list"

text \<open>
  The artifacts on disk. An embedding matrix is the list of its rows, of an abstract row
  type \<open>'v\<close>; \<open>None\<close> is a file that does not exist. A cache file that exists either
  parses to its content or is malformed, and then \<open>json.load\<close> or \<open>np.load\<close> raises on it
  (\<open>DecodeError\<close>). The fingerprint map is a JSON object: an association list, in insertion
  order.
\<close>

datatype 'a artifact = Parsed 'a | Malformed

record 'v store =
  file_cache_metadata :: "(string \<times> file_record) list option"
  chunk_files :: "string \<rightharpoonup> chunk list artifact"
  emb_files :: "string \<rightharpoonup> 'v list artifact"
  faiss_index_file :: "'v list option"
  docstore_file :: "chunk list option"
  metadata_file :: "index_metadata option"

text \<open>
  What the code is given from outside: the sentence encoder (one call per batch of texts,
  \<open>None\<close> when the call raises), the path hash behind \<open>_compute_file_id\<close>, and the
  nearest-neighbour search of the flat index (one list of row numbers per query row).
\<close>

record 'v env =
  encode :: "string list \<Rightarrow> 'v list option"
  compute_file_id :: "string \<Rightarrow> string"
  search :: "'v list \<Rightarrow> 'v list \<Rightarrow> nat \<Rightarrow> int list list"

definition load_existing_file_metadata :: "'v store \<Rightarrow> (string \<times> file_record) list" where
  "load_existing_file_metadata st =
     (case file_cache_metadata st of Some m \<Rightarrow> m | None \<Rightarrow> [])"

definition load_cached_chunks_and_embeddings ::
  "'v store \<Rightarrow> string \<Rightarrow> error + (chunk list \<times> 'v list)" where
  "load_cached_chunks_and_embeddings st cache_basename =
     (if chunk_files st cache_basename = None \<or> emb_files st cache_basename = None
      then Inl (FileNotFoundError ''Cache files not found'')
      else (case (chunk_files st cache_basename, emb_files st cache_basename) of
              (Some (Parsed chunks), Some (Parsed embeddings)) \<Rightarrow> Inr (chunks, embeddings)
            | (Some Malformed, Some e) \<Rightarrow> Inl DecodeError
            | (Some (Parsed chunks), Some Malformed) \<Rightarrow> Inl DecodeError
            | _ \<Rightarrow> Inl (FileNotFoundError ''Cache files not found'')))"

definition save_cached_chunks_and_embeddings ::
  "'v store \<Rightarrow> string \<Rightarrow> chunk list \<Rightarrow> 'v list \<Rightarrow> 'v store" where
  "save_cached_chunks_and_embeddings st cache_basename chunks embeddings =
     st\<lparr>chunk_files := (chunk_files st)(cache_basename \<mapsto> Parsed chunks),
        emb_files := (emb_files st)(cache_basename \<mapsto> Parsed embeddings)\<rparr>"

text \<open>Decimal digits of a natural number, for \<open>f"{file_id}::chunk_{idx}"\<close>.\<close>

fun show_nat :: "nat \<Rightarrow> string" where
  "show_nat n =
     (if n < 10 then [char_of (48 + n)]
      else show_nat (n div 10) @ [char_of (48 + n mod 10)])"

declare show_nat.simps [simp del]

text \<open>The per-chunk metadata of one file: the loop over \<open>enumerate(chunk_texts)\<close>.\<close>

definition per_file_chunks :: "string \<Rightarrow> string \<Rightarrow> string list \<Rightarrow> chunk list" where
  "per_file_chunks file_id path chunk_texts =
     map (\<lambda>(idx, chunk).
            \<lparr>c_id = file_id @ ''::chunk_'' @ show_nat idx, c_text = chunk,
             c_source_file = path, c_chunk_index = idx\<rparr>)
         (enumerate 0 chunk_texts)"

text \<open>
  The variables of the loop over the textbooks, together with the disk and the list of the
  batches the encoder has been called with.
\<close>

record 'v build_state =
  all_chunks :: "chunk list"
  all_embeddings :: "'v list list"
  runtime_unsupported :: "(string \<times> string) list"
  existing_meta :: "(string \<times> file_record) list"
  disk :: "'v store"
  encode_calls :: "string list list"

text \<open>
  Lines 99 to 113: the lookup of the previous record and the attempt to load the cache.
  \<open>Some\<close> pair is \<open>cache_exists = True\<close>; only \<open>FileNotFoundError\<close> is caught, any other
  exception of the load leaves the build.
\<close>

definition cache_lookup ::
  "'v env \<Rightarrow> 'v build_state \<Rightarrow> source_file \<Rightarrow> error + (chunk list \<times> 'v list) option" where
  "cache_lookup env bs f =
     (case map_of (existing_meta bs) (path_str f) of
        None \<Rightarrow> Inr None
      | Some previous \<Rightarrow>
          if rec_mtime_ns previous = st_mtime_ns f \<and> rec_size previous = st_size f
          then (case load_cached_chunks_and_embeddings (disk bs) (compute_file_id env (path_str f)) of
                  Inr ce \<Rightarrow> Inr (Some ce)
                | Inl (FileNotFoundError m) \<Rightarrow> Inr None
                | Inl e \<Rightarrow> Inl e)
          else Inr None)"

text \<open>Lines 118 to 171: extraction, chunking, encoding, saving the cache and the record.\<close>

definition recompute :: "'v env \<Rightarrow> 'v build_state \<Rightarrow> source_file \<Rightarrow> error + 'v build_state" where
  "recompute env bs f =
     (let p = path_str f; file_id = compute_file_id env p; cache_basename = file_id
      in case load_text_from_file f of
           (None, reason) \<Rightarrow>
             Inr (bs\<lparr>runtime_unsupported := runtime_unsupported bs @
                       [(p, case reason of None \<Rightarrow> ''unreadable''
                                         | Some r \<Rightarrow> if r = [] then ''unreadable'' else r)]\<rparr>)
         | (Some text, reason) \<Rightarrow>
             (let chunk_texts = chunk_text text CHUNK_SIZE_WORDS CHUNK_OVERLAP_WORDS
              in if chunk_texts = []
                 then Inr (bs\<lparr>runtime_unsupported := runtime_unsupported bs @
                                [(p, ''no_chunks_after_split'')]\<rparr>)
                 else (case encode env chunk_texts of
                         None \<Rightarrow> Inl EncodeException
                       | Some embeddings \<Rightarrow>
                           (let chunks = per_file_chunks file_id p chunk_texts
                            in Inr (bs\<lparr>all_chunks := all_chunks bs @ chunks,
                                       all_embeddings := all_embeddings bs @ [embeddings],
                                       existing_meta :=
                                         AList.update p
                                           \<lparr>rec_path = p, rec_file_id = file_id,
                                            rec_mtime_ns = st_mtime_ns f, rec_size = st_size f,
                                            rec_cache_basename = cache_basename\<rparr>
                                           (existing_meta bs),
                                       disk := save_cached_chunks_and_embeddings (disk bs)
                                                 cache_basename chunks embeddings,
                                       encode_calls := encode_calls bs @ [chunk_texts]\<rparr>)))))"

text \<open>The body of \<open>for path in textbooks\<close>.\<close>

definition process_file :: "'v env \<Rightarrow> 'v build_state \<Rightarrow> source_file \<Rightarrow> error + 'v build_state" where
  "process_file env bs f =
     (case cache_lookup env bs f of
        Inl e \<Rightarrow> Inl e
      | Inr (Some (chunks, emb)) \<Rightarrow>
          Inr (bs\<lparr>all_chunks := all_chunks bs @ chunks,
                  all_embeddings := all_embeddings bs @ [emb]\<rparr>)
      | Inr None \<Rightarrow> recompute env bs f)"

fun build_loop :: "'v env \<Rightarrow> 'v build_state \<Rightarrow> source_file list \<Rightarrow> error + 'v build_state" where
  "build_loop env bs [] = Inr bs"
| "build_loop env bs (f # fs) =
     (case process_file env bs f of
        Inl e \<Rightarrow> Inl e
      | Inr bs' \<Rightarrow> build_loop env bs' fs)"

text \<open>Lines 86 to 91: the variables before the loop, on the disk \<open>st\<close>.\<close>

definition initial_build_state :: "'v store \<Rightarrow> 'v build_state" where
  "initial_build_state st =
     \<lparr>all_chunks = [], all_embeddings = [], runtime_unsupported = [],
      existing_meta = load_existing_file_metadata st, disk = st, encode_calls = []\<rparr>"

text \<open>
  Lines 173 to 223, after the loop: the fingerprint map is saved, then either the metadata
  of an index that is not built, or the index, the docstore and their metadata.
  \<open>np.vstack\<close> is the concatenation of the blocks' rows. The result is the returned
  metadata, the disk after the build, and the batches the encoder was called with.
\<close>

definition finish_build ::
  "'v build_state \<Rightarrow> source_file list \<Rightarrow> index_metadata \<times> 'v store \<times> string list list" where
  "finish_build bs unsupported_by_extension =
     (let st1 = (disk bs)\<lparr>file_cache_metadata := Some (existing_meta bs)\<rparr>;
          unsupported = runtime_unsupported bs @
             map (\<lambda>p. (path_str p, ''extension_not_in_[txt,pdf,doc,docx]''))
                 unsupported_by_extension
      in if all_embeddings bs = []
         then (let metadata = \<lparr>total_chunks = 0, files_indexed = [],
                                 embedding_model = EMBEDDING_MODEL_NAME,
                                 index_type = None, index_built = False,
                                 unsupported_files = unsupported\<rparr>
               in (metadata, st1\<lparr>metadata_file := Some metadata\<rparr>, encode_calls bs))
         else (let mat = concat (all_embeddings bs);
                   metadata = \<lparr>total_chunks = length (all_chunks bs),
                                 files_indexed = map snd (existing_meta bs),
                                 embedding_model = EMBEDDING_MODEL_NAME,
                                 index_type = Some ''IndexFlatIP_normalized'',
                                 index_built = True,
                                 unsupported_files = unsupported\<rparr>
               in (metadata,
                   st1\<lparr>faiss_index_file := Some mat,
                       docstore_file := Some (all_chunks bs),
                       metadata_file := Some metadata\<rparr>,
                   encode_calls bs)))"

text \<open>
  \<open>build_or_update_index\<close> on the listing of the textbook directory; an exception of the
  loop leaves the function before anything after the loop is written.
\<close>

definition build_or_update_index ::
  "'v env \<Rightarrow> 'v store \<Rightarrow> source_file list \<Rightarrow>
   error + (index_metadata \<times> 'v store \<times> string list list)" where
  "build_or_update_index env st listing =
     (let (textbooks, unsupported_by_extension) = discover_textbook_files listing
      in case build_loop env (initial_build_state st) textbooks of
           Inl e \<Rightarrow> Inl e
         | Inr bs \<Rightarrow> Inr (finish_build bs unsupported_by_extension))"

section \<open>rag\_llm.py: the retriever\<close>

text \<open>
  The tutor object: the loaded docstore and index, and what it has asked of the encoder and
  of the index so far (the questions encoded, the \<open>k\<close> of each search).
\<close>

record 'v tutor =
  t_docstore :: "chunk list"
  t_index :: "'v list"
  t_encoded :: "string list"
  t_searched :: "nat list"


text \<open>
  The loop \<open>for rank, idx in enumerate(idxs)\<close> on the triple
  (\<open>chosen_chunks\<close>, \<open>context_parts\<close>, \<open>total_chars\<close>).
\<close>

fun collect_context ::
  "chunk list \<Rightarrow> int list \<Rightarrow> chunk list \<times> string list \<times> int \<Rightarrow> chunk list \<times> string list \<times> int" where
  "collect_context docstore [] acc = acc"
| "collect_context docstore (idx # idxs) (chosen_chunks, context_parts, total_chars) =
     (if idx < 0 \<or> idx \<ge> int (length docstore)
      then collect_context docstore idxs (chosen_chunks, context_parts, total_chars)
      else (let meta = docstore ! nat idx; txt = c_text meta
            in if txt = []
               then collect_context docstore idxs (chosen_chunks, context_parts, total_chars)
               else if total_chars + int (length txt) > MAX_CONTEXT_CHARS \<and> context_parts \<noteq> []
               then (chosen_chunks, context_parts, total_chars)
               else collect_context docstore idxs
                      (chosen_chunks @ [meta], context_parts @ [txt],
                       total_chars + int (length txt))))"

text \<open>\<open>RAGTutor._retrieve_context\<close>: the result, and the tutor with its calls recorded.\<close>

definition retrieve_context ::
  "'v env \<Rightarrow> 'v tutor \<Rightarrow> string \<Rightarrow> (error + (string \<times> chunk list)) \<times> 'v tutor" where
  "retrieve_context env t question =
     (if py_strip question = []
      then (Inl (ValueError ''Question must not be empty''), t)
      else (case encode env [question] of
              None \<Rightarrow> (Inl EncodeException, t\<lparr>t_encoded := t_encoded t @ [question]\<rparr>)
            | Some query_embedding \<Rightarrow>
                (let t1 = t\<lparr>t_encoded := t_encoded t @ [question]\<rparr>;
                     total_chunks = int (length (t_docstore t));
                     k = min TOP_K_CHUNKS total_chunks
                 in if k \<le> 0
                    then (Inl (RuntimeError ''No chunks available in docstore.''), t1)
                    else (let t2 = t1\<lparr>t_searched := t_searched t1 @ [nat k]\<rparr>
                          in case search env (t_index t) query_embedding (nat k) of
                               [] \<Rightarrow> (Inl IndexError, t2)
                             | idxs # _ \<Rightarrow>
                                 (let (chosen_chunks, context_parts, total_chars) =
                                        collect_context (t_docstore t) idxs ([], [], 0)
                                  in (Inr (py_join [CHR 0x0A, CHR 0x0A] context_parts, chosen_chunks),
                                      t2))))))"

section \<open>Notions used to state the properties\<close>

text \<open>
  A search result is usable when it is a row number of the docstore whose entry has a
  non-empty text: the two \<open>continue\<close> guards of the retrieval loop. The candidates are the
  entries of the usable results, in ranked order.
\<close>

definition usable :: "chunk list \<Rightarrow> int \<Rightarrow> bool" where
  "usable docstore idx \<longleftrightarrow>
     0 \<le> idx \<and> idx < int (length docstore) \<and> c_text (docstore ! nat idx) \<noteq> []"

definition candidates :: "chunk list \<Rightarrow> int list \<Rightarrow> chunk list" where
  "candidates docstore idxs = map (\<lambda>idx. docstore ! nat idx) (filter (usable docstore) idxs)"

definition total_len :: "chunk list \<Rightarrow> int" where
  "total_len cs = sum_list (map (\<lambda>c. int (length (c_text c))) cs)"



text \<open>No complete cache entry holds an empty chunk list: \<open>save\<close> is never reached with one.\<close>

definition cache_nonempty :: "'v store \<Rightarrow> bool" where
  "cache_nonempty st \<longleftrightarrow>
     (\<forall>b cs es. chunk_files st b = Some (Parsed cs) \<longrightarrow> emb_files st b = Some (Parsed es)
        \<longrightarrow> cs \<noteq> [])"

text \<open>
  The fingerprint test of lines 101 to 105: a record for the path exists, with the file's
  current \<open>mtime_ns\<close> and size.
\<close>

definition unchanged :: "(string \<times> file_record) list \<Rightarrow> source_file \<Rightarrow> bool" where
  "unchanged meta f =
     (case map_of meta (path_str f) of
        None \<Rightarrow> False
      | Some previous \<Rightarrow> rec_mtime_ns previous = st_mtime_ns f \<and> rec_size previous = st_size f)"

section \<open>Concrete collaborators and disks used in the examples\<close>

text \<open>
  An encoder that returns one row per text (the text's length), a path hash that is the
  path itself, and a search that returns the first \<open>k\<close> row numbers.
\<close>

definition length_env :: "nat env" where
  "length_env = \<lparr>encode = (\<lambda>texts. Some (map length texts)),
                 compute_file_id = (\<lambda>p. p),
                 search = (\<lambda>index query k. [map int [0..<k]])\<rparr>"


text \<open>The same, with an encoder whose every call raises.\<close>

definition failing_env :: "nat env" where
  "failing_env = length_env\<lparr>encode := (\<lambda>texts. None)\<rparr>"

definition empty_store :: "nat store" where
  "empty_store = \<lparr>file_cache_metadata = None, chunk_files = Map.empty, emb_files = Map.empty,
                   faiss_index_file = None, docstore_file = None, metadata_file = None\<rparr>"

definition txt_file :: "string \<Rightarrow> string \<Rightarrow> source_file" where
  "txt_file p content =
     \<lparr>path_str = p, suffix_lower = ''.txt'', st_mtime_ns = 1, st_size = int (length content),
      loader = Loaded content\<rparr>"

text \<open>A docstore whose first entry alone is over the context budget.\<close>

definition long_chunk :: chunk where
  "long_chunk = \<lparr>c_id = ''f::chunk_0'', c_text = replicate 6001 (CHR ''a''),
                  c_source_file = ''f'', c_chunk_index = 0\<rparr>"

definition short_chunk :: chunk where
  "short_chunk = \<lparr>c_id = ''f::chunk_1'', c_text = ''b'', c_source_file = ''f'',
                   c_chunk_index = 1\<rparr>"

definition demo_tutor :: "nat tutor" where
  "demo_tutor = \<lparr>t_docstore = [long_chunk, short_chunk], t_index = [6001, 1],
                  t_encoded = [], t_searched = []\<rparr>"

text \<open>
  Two textbooks, a directory with nothing to index, and a disk that holds the cache and
  the record of the first textbook.
\<close>

definition file_A :: source_file where
  "file_A = txt_file ''/books/A.txt'' ''alpha beta gamma delta''"

definition file_B :: source_file where
  "file_B = txt_file ''/books/B.txt'' ''epsilon zeta''"

definition demo_listing :: "source_file list" where
  "demo_listing = [file_A, file_B]"

definition alpha_chunk :: chunk where
  "alpha_chunk = \<lparr>c_id = ''/books/A.txt::chunk_0'', c_text = ''alpha beta gamma delta'',
                   c_source_file = ''/books/A.txt'', c_chunk_index = 0\<rparr>"

definition warm_store :: "nat store" where
  "warm_store = empty_store
     \<lparr>file_cache_metadata :=
        Some [(''/books/A.txt'',
               \<lparr>rec_path = ''/books/A.txt'', rec_file_id = ''/books/A.txt'', rec_mtime_ns = 1,
                rec_size = 22, rec_cache_basename = ''/books/A.txt''\<rparr>)],
      chunk_files := [''/books/A.txt'' \<mapsto> Parsed [alpha_chunk]],
      emb_files := [''/books/A.txt'' \<mapsto> Parsed [22]]\<rparr>"

definition barren_listing :: "source_file list" where
  "barren_listing = [txt_file ''/books/empty.txt'' [],
                     \<lparr>path_str = ''/books/x.bin'', suffix_lower = ''.bin'', st_mtime_ns = 1,
                      st_size = 4, loader = Loaded ''data''\<rparr>]"

text \<open>
  A directory with an unreadable file between the two textbooks; the disk after a build of
  the first textbook from nothing, and after a second build once the directory has been
  emptied; the tutor that loads from that disk.
\<close>

definition bad_file :: source_file where
  "bad_file = \<lparr>path_str = ''/books/bad.pdf'', suffix_lower = ''.pdf'', st_mtime_ns = 1,
                st_size = 9, loader = RaisedException ''corrupt''\<rparr>"

definition interrupted_listing :: "source_file list" where
  "interrupted_listing = [file_A, bad_file, file_B]"

definition record_A :: file_record where
  "record_A = \<lparr>rec_path = ''/books/A.txt'', rec_file_id = ''/books/A.txt'', rec_mtime_ns = 1,
                rec_size = 22, rec_cache_basename = ''/books/A.txt''\<rparr>"

definition built_md :: index_metadata where
  "built_md = \<lparr>total_chunks = 1, files_indexed = [record_A],
               embedding_model = EMBEDDING_MODEL_NAME,
               index_type = Some ''IndexFlatIP_normalized'', index_built = True,
               unsupported_files = []\<rparr>"

definition built_store :: "nat store" where
  "built_store = warm_store\<lparr>faiss_index_file := Some [22], docstore_file := Some [alpha_chunk],
                            metadata_file := Some built_md\<rparr>"

definition unbuilt_md :: index_metadata where
  "unbuilt_md = \<lparr>total_chunks = 0, files_indexed = [],
                 embedding_model = EMBEDDING_MODEL_NAME,
                 index_type = None, index_built = False, unsupported_files = []\<rparr>"

definition stale_store :: "nat store" where
  "stale_store = built_store\<lparr>metadata_file := Some unbuilt_md\<rparr>"

definition stale_tutor :: "nat tutor" where
  "stale_tutor = \<lparr>t_docstore = [alpha_chunk], t_index = [22], t_encoded = [], t_searched = []\<rparr>"

section \<open>Strings: splitting and stripping\<close>

lemma split_acc_spaces:
  "\<forall>c\<in>set s. is_space c \<Longrightarrow> split_acc cur s = (if cur = [] then [] else [cur])"
  by (induction s arbitrary: cur) auto

lemma py_split_blank: "\<forall>c\<in>set s. is_space c \<Longrightarrow> py_split s = []"
  by (simp add: py_split_def split_acc_spaces)

lemma dropWhile_all_iff: "(\<forall>x\<in>set (dropWhile P s). P x) \<longleftrightarrow> (\<forall>x\<in>set s. P x)"
  by (induction s) auto

lemma py_strip_blank_iff: "py_strip s = [] \<longleftrightarrow> (\<forall>c\<in>set s. is_space c)"
  by (simp add: py_strip_def dropWhile_eq_Nil_conv dropWhile_all_iff)

lemma split_acc_nonempty: "cur \<noteq> [] \<Longrightarrow> split_acc cur s \<noteq> []"
  by (induction s arbitrary: cur) auto

lemma split_acc_has_word: "\<exists>c\<in>set s. \<not> is_space c \<Longrightarrow> split_acc cur s \<noteq> []"
  by (induction s arbitrary: cur) (auto simp: split_acc_nonempty)

lemma py_split_nonblank: "py_strip s \<noteq> [] \<Longrightarrow> py_split s \<noteq> []"
  by (auto simp: py_strip_blank_iff py_split_def split_acc_has_word)

lemma py_slice_all: "int (length ws) \<le> e \<Longrightarrow> py_slice ws 0 e = ws"
  by (simp add: py_slice_def Let_def)

lemma py_slice_tail:
  "0 \<le> st \<Longrightarrow> st < int (length ws) \<Longrightarrow> int (length ws) \<le> e \<Longrightarrow> py_slice ws st e \<noteq> []"
  by (auto simp: py_slice_def Let_def)

section \<open>The chunker\<close>

lemma chunk_loop_unfold_go:
  "st < int (length ws) \<Longrightarrow> py_slice ws st (st + s) \<noteq> [] \<Longrightarrow>
   chunk_loop ws s ov st acc =
     chunk_loop ws s ov (st + chunk_step s ov) (acc @ [py_join '' '' (py_slice ws st (st + s))])"
  by (subst chunk_loop.simps) (simp add: Let_def)

lemma chunk_loop_unfold_stop:
  "\<not> (st < int (length ws) \<and> py_slice ws st (st + s) \<noteq> []) \<Longrightarrow>
   chunk_loop ws s ov st acc = acc"
  by (subst chunk_loop.simps) (auto simp: Let_def)

lemma chunk_loop_app_aux:
  "\<forall>a b. acc = a @ b \<longrightarrow> chunk_loop ws s ov st acc = a @ chunk_loop ws s ov st b"
proof (induction ws s ov st acc rule: chunk_loop.induct)
  case (1 ws s ov st acc)
  show ?case
  proof (cases "st < int (length ws) \<and> py_slice ws st (st + s) \<noteq> []")
    case True
    then have go: "st < int (length ws)" "py_slice ws st (st + s) \<noteq> []" by simp_all
    show ?thesis
    proof (intro allI impI)
      fix a b assume ab: "acc = a @ b"
      let ?c = "py_join '' '' (py_slice ws st (st + s))"
      have "chunk_loop ws s ov st acc = chunk_loop ws s ov (st + chunk_step s ov) (acc @ [?c])"
        using go by (rule chunk_loop_unfold_go)
      also have "\<dots> = a @ chunk_loop ws s ov (st + chunk_step s ov) (b @ [?c])"
        using 1 [OF go(1) refl refl go(2)] ab by simp
      also have "\<dots> = a @ chunk_loop ws s ov st b"
        using chunk_loop_unfold_go [OF go, of ov b] by simp
      finally show "chunk_loop ws s ov st acc = a @ chunk_loop ws s ov st b" .
    qed
  next
    case False
    then show ?thesis by (simp add: chunk_loop_unfold_stop)
  qed
qed

lemma chunk_loop_acc: "chunk_loop ws s ov st acc = acc @ chunk_loop ws s ov st []"
proof -
  have "acc = acc @ []" by simp
  then show ?thesis using chunk_loop_app_aux by blast
qed

text \<open>The loop that may not return does return, and what the total loop computes.\<close>

lemma chunk_while_total:
  "chunk_while ws s ov st acc = Some (chunk_loop ws s ov st acc)"
proof (induction ws s ov st acc rule: chunk_loop.induct)
  case (1 ws s ov st acc)
  then show ?case
    by (subst chunk_while.simps, subst chunk_loop.simps) (simp add: Let_def)
qed

text \<open>Each iteration adds one chunk and moves \<open>start\<close> at least one word on.\<close>

lemma chunk_loop_length:
  "0 \<le> st \<Longrightarrow> length (chunk_loop ws s ov st acc) \<le> length acc + nat (int (length ws) - st)"
proof (induction ws s ov st acc rule: chunk_loop.induct)
  case (1 ws s ov st acc)
  show ?case
  proof (cases "st < int (length ws) \<and> py_slice ws st (st + s) \<noteq> []")
    case True
    then have go: "st < int (length ws)" "py_slice ws st (st + s) \<noteq> []" by simp_all
    have pos: "1 \<le> chunk_step s ov" by (simp add: chunk_step_def)
    have "length (chunk_loop ws s ov (st + chunk_step s ov)
                    (acc @ [py_join '' '' (py_slice ws st (st + s))]))
          \<le> length (acc @ [py_join '' '' (py_slice ws st (st + s))])
              + nat (int (length ws) - (st + chunk_step s ov))"
      using 1(1) [OF go(1) refl refl go(2)] 1(2) pos by simp
    then show ?thesis
      using chunk_loop_unfold_go [OF go, of ov acc] go(1) pos by simp
  next
    case False
    then show ?thesis by (simp add: chunk_loop_unfold_stop)
  qed
qed

lemma chunk_loop_single:
  assumes ne: "ws \<noteq> []" and le: "int (length ws) \<le> s"
  shows "\<exists>rest. chunk_loop ws s ov 0 [] = py_join '' '' ws # rest"
    and "chunk_loop ws s ov 0 [] = [py_join '' '' ws] \<longleftrightarrow> int (length ws) \<le> chunk_step s ov"
proof -
  have pos: "1 \<le> chunk_step s ov" by (simp add: chunk_step_def)
  have sl: "py_slice ws 0 (0 + s) = ws" using le by (simp add: py_slice_all)
  have first: "chunk_loop ws s ov 0 [] = chunk_loop ws s ov (chunk_step s ov) [py_join '' '' ws]"
    using chunk_loop_unfold_go [of 0 ws s ov "[]"] ne sl by simp
  then have eq: "chunk_loop ws s ov 0 [] = py_join '' '' ws # chunk_loop ws s ov (chunk_step s ov) []"
    using chunk_loop_acc [of ws s ov "chunk_step s ov" "[py_join '' '' ws]"] by simp
  show "\<exists>rest. chunk_loop ws s ov 0 [] = py_join '' '' ws # rest" using eq by blast
  show "chunk_loop ws s ov 0 [] = [py_join '' '' ws] \<longleftrightarrow> int (length ws) \<le> chunk_step s ov"
  proof (cases "int (length ws) \<le> chunk_step s ov")
    case True
    then have "chunk_loop ws s ov (chunk_step s ov) [] = []"
      by (simp add: chunk_loop_unfold_stop)
    with eq True show ?thesis by simp
  next
    case False
    then have lt: "chunk_step s ov < int (length ws)" by simp
    have slne: "py_slice ws (chunk_step s ov) (chunk_step s ov + s) \<noteq> []"
      using py_slice_tail [of "chunk_step s ov" ws "chunk_step s ov + s"] pos lt le by simp
    have "chunk_loop ws s ov (chunk_step s ov) [] =
          chunk_loop ws s ov (chunk_step s ov + chunk_step s ov)
             [py_join '' '' (py_slice ws (chunk_step s ov) (chunk_step s ov + s))]"
      using chunk_loop_unfold_go [OF lt slne, of ov "[]"] by simp
    then have "chunk_loop ws s ov (chunk_step s ov) [] \<noteq> []"
      using chunk_loop_acc [of ws s ov "chunk_step s ov + chunk_step s ov"
               "[py_join '' '' (py_slice ws (chunk_step s ov) (chunk_step s ov + s))]"] by simp
    with eq False show ?thesis by simp
  qed
qed

text \<open>
  C5, as the code has it. A text with only whitespace (the empty text among them) gives no
  chunk, for every chunk size and overlap. A text with at least one word and at most
  \<open>chunk_size_words\<close> words gives a first chunk that is all its words joined by single
  blanks; that chunk is the only one exactly when the word count is at most the step
  \<open>max(1, chunk_size_words - overlap_words)\<close>, since the window keeps sliding over the
  words already emitted.
\<close>

theorem chunk_text_blank_and_short:
  "((\<forall>c\<in>set T. is_space c) \<longrightarrow> chunk_text T s ov = []) \<and>
   (py_split T \<noteq> [] \<and> int (length (py_split T)) \<le> s \<longrightarrow>
      (\<exists>rest. chunk_text T s ov = py_join '' '' (py_split T) # rest) \<and>
      (chunk_text T s ov = [py_join '' '' (py_split T)]
         \<longleftrightarrow> int (length (py_split T)) \<le> chunk_step s ov))"
proof (intro conjI impI)
  assume "\<forall>c\<in>set T. is_space c"
  then show "chunk_text T s ov = []"
    by (simp add: chunk_text_def py_split_blank)
next
  assume h: "py_split T \<noteq> [] \<and> int (length (py_split T)) \<le> s"
  then show "\<exists>rest. chunk_text T s ov = py_join '' '' (py_split T) # rest"
    using chunk_loop_single(1) [of "py_split T" s ov] by (simp add: chunk_text_def)
next
  assume h: "py_split T \<noteq> [] \<and> int (length (py_split T)) \<le> s"
  then show "chunk_text T s ov = [py_join '' '' (py_split T)]
         \<longleftrightarrow> int (length (py_split T)) \<le> chunk_step s ov"
    using chunk_loop_single(2) [of "py_split T" s ov] by (simp add: chunk_text_def)
qed

theorem chunk_text_blank_and_short_witness:
  "list_all is_space ''  '' \<and> chunk_text ''  '' 5 1 = [] \<and>
   py_split ''a b'' \<noteq> [] \<and> int (length (py_split ''a b'')) \<le> 5 \<and>
   chunk_text ''a b'' 5 1 = [''a b'']"
  using chunk_text_blank_and_short [of "''  ''" 5 1]
        chunk_text_blank_and_short [of "''a b''" 5 1]
  by (simp add: py_split_def is_space_def chunk_step_def)

text \<open>
  Three words, chunk size 3, overlap 2: the word count is at most the chunk size, and the
  chunker returns three chunks, not one.
\<close>

theorem chunk_text_short_counterexample:
  "int (length (py_split ''a b c'')) \<le> 3 \<and>
   chunk_text ''a b c'' 3 2 = [''a b c'', ''b c'', ''c''] \<and>
   chunk_text ''a b c'' 3 2 \<noteq> [py_join '' '' (py_split ''a b c'')]"
  by (simp add: chunk_text_def py_split_def is_space_def chunk_loop.simps py_slice_def
        chunk_step_def Let_def)

lemma chunk_tail_rec:
  "chunk_loop ws s ov st [] =
     (if st < int (length ws) \<and> py_slice ws st (st + s) \<noteq> []
      then py_join '' '' (py_slice ws st (st + s)) # chunk_loop ws s ov (st + chunk_step s ov) []
      else [])"
proof (cases "st < int (length ws) \<and> py_slice ws st (st + s) \<noteq> []")
  case True
  then have go: "st < int (length ws)" "py_slice ws st (st + s) \<noteq> []" by simp_all
  have "chunk_loop ws s ov st [] =
        chunk_loop ws s ov (st + chunk_step s ov) [py_join '' '' (py_slice ws st (st + s))]"
    using chunk_loop_unfold_go [OF go, of ov "[]"] by simp
  also have "\<dots> = [py_join '' '' (py_slice ws st (st + s))]
                    @ chunk_loop ws s ov (st + chunk_step s ov) []"
    by (rule chunk_loop_acc)
  finally show ?thesis using True by simp
next
  case False
  then show ?thesis by (simp add: chunk_loop_unfold_stop)
qed

lemma chunk_tail_windows:
  "i < length (chunk_loop ws s ov st []) \<Longrightarrow>
   st + int i * chunk_step s ov < int (length ws) \<and>
   py_slice ws (st + int i * chunk_step s ov) (st + int i * chunk_step s ov + s) \<noteq> [] \<and>
   chunk_loop ws s ov st [] ! i =
     py_join '' '' (py_slice ws (st + int i * chunk_step s ov) (st + int i * chunk_step s ov + s))"
proof (induction i arbitrary: st)
  case 0
  then have "st < int (length ws) \<and> py_slice ws st (st + s) \<noteq> []"
    by (subst (asm) chunk_tail_rec) (simp split: if_splits)
  then show ?case by (subst chunk_tail_rec) simp
next
  case (Suc i)
  from Suc.prems have go: "st < int (length ws) \<and> py_slice ws st (st + s) \<noteq> []"
    by (subst (asm) chunk_tail_rec) (simp split: if_splits)
  then have eq: "chunk_loop ws s ov st [] =
      py_join '' '' (py_slice ws st (st + s)) # chunk_loop ws s ov (st + chunk_step s ov) []"
    by (subst chunk_tail_rec) simp
  with Suc.prems have "i < length (chunk_loop ws s ov (st + chunk_step s ov) [])" by simp
  from Suc.IH [OF this]
  have ih: "st + chunk_step s ov + int i * chunk_step s ov < int (length ws) \<and>
     py_slice ws (st + chunk_step s ov + int i * chunk_step s ov)
        (st + chunk_step s ov + int i * chunk_step s ov + s) \<noteq> [] \<and>
     chunk_loop ws s ov (st + chunk_step s ov) [] ! i =
       py_join '' '' (py_slice ws (st + chunk_step s ov + int i * chunk_step s ov)
                        (st + chunk_step s ov + int i * chunk_step s ov + s))" .
  have pos: "st + chunk_step s ov + int i * chunk_step s ov = st + int (Suc i) * chunk_step s ov"
    by (simp add: algebra_simps)
  show ?case using ih eq unfolding pos by simp
qed

lemma chunk_tail_stop:
  "k = length (chunk_loop ws s ov st []) \<Longrightarrow>
   int (length ws) \<le> st + int k * chunk_step s ov \<or>
   py_slice ws (st + int k * chunk_step s ov) (st + int k * chunk_step s ov + s) = []"
proof (induction k arbitrary: st)
  case 0
  then have "chunk_loop ws s ov st [] = []" by simp
  then have "\<not> (st < int (length ws) \<and> py_slice ws st (st + s) \<noteq> [])"
    by (subst (asm) chunk_tail_rec) (simp split: if_splits)
  then show ?case by auto
next
  case (Suc k)
  then have ne: "chunk_loop ws s ov st [] \<noteq> []" by auto
  then have go: "st < int (length ws) \<and> py_slice ws st (st + s) \<noteq> []"
    by (subst (asm) chunk_tail_rec) (simp split: if_splits)
  then have eq: "chunk_loop ws s ov st [] =
      py_join '' '' (py_slice ws st (st + s)) # chunk_loop ws s ov (st + chunk_step s ov) []"
    by (subst chunk_tail_rec) simp
  with Suc.prems have "k = length (chunk_loop ws s ov (st + chunk_step s ov) [])" by simp
  from Suc.IH [OF this]
  have ih: "int (length ws) \<le> st + chunk_step s ov + int k * chunk_step s ov \<or>
     py_slice ws (st + chunk_step s ov + int k * chunk_step s ov)
        (st + chunk_step s ov + int k * chunk_step s ov + s) = []" .
  have pos: "st + chunk_step s ov + int k * chunk_step s ov = st + int (Suc k) * chunk_step s ov"
    by (simp add: algebra_simps)
  show ?case using ih unfolding pos .
qed

text \<open>
  C9: for every text, chunk size and overlap (an overlap at least the chunk size among
  them), the step is \<open>max(1, chunk_size_words - overlap_words)\<close>, at least one word; the
  loop returns (the loop written with no termination argument yields a list, the one the
  chunker computes), with at most as many chunks as the text has words; chunk \<open>i\<close> is the
  window that starts \<open>i\<close> steps into the words, which is inside the text; and after the
  last chunk the next start is past the words, or the window there is empty.
\<close>

theorem chunk_text_terminates:
  "chunk_step s ov = max 1 (s - ov) \<and> 1 \<le> max 1 (s - ov) \<and>
   chunk_text_run T s ov = Some (chunk_text T s ov) \<and>
   length (chunk_text T s ov) \<le> length (py_split T) \<and>
   (\<forall>i<length (chunk_text T s ov).
      int i * max 1 (s - ov) < int (length (py_split T)) \<and>
      chunk_text T s ov ! i =
        py_join '' '' (py_slice (py_split T) (int i * max 1 (s - ov))
                                            (int i * max 1 (s - ov) + s))) \<and>
   (int (length (py_split T)) \<le> int (length (chunk_text T s ov)) * max 1 (s - ov) \<or>
    py_slice (py_split T) (int (length (chunk_text T s ov)) * max 1 (s - ov))
                          (int (length (chunk_text T s ov)) * max 1 (s - ov) + s) = [])"
proof (intro conjI)
  show "chunk_step s ov = max 1 (s - ov)" by (simp add: chunk_step_def)
  show "1 \<le> max 1 (s - ov)" by simp
  show "chunk_text_run T s ov = Some (chunk_text T s ov)"
    by (simp add: chunk_text_run_def chunk_text_def chunk_while_total Let_def)
  show "length (chunk_text T s ov) \<le> length (py_split T)"
    using chunk_loop_length [of 0 "py_split T" s ov "[]"] by (simp add: chunk_text_def Let_def)
  have ct: "chunk_text T s ov = chunk_loop (py_split T) s ov 0 []"
    by (cases "py_split T = []") (simp_all add: chunk_text_def Let_def chunk_loop_unfold_stop)
  show "\<forall>i<length (chunk_text T s ov).
      int i * max 1 (s - ov) < int (length (py_split T)) \<and>
      chunk_text T s ov ! i =
        py_join '' '' (py_slice (py_split T) (int i * max 1 (s - ov))
                                            (int i * max 1 (s - ov) + s))"
  proof (intro allI impI)
    fix i assume "i < length (chunk_text T s ov)"
    then have "i < length (chunk_loop (py_split T) s ov 0 [])" by (simp add: ct)
    from chunk_tail_windows [OF this]
    show "int i * max 1 (s - ov) < int (length (py_split T)) \<and>
      chunk_text T s ov ! i =
        py_join '' '' (py_slice (py_split T) (int i * max 1 (s - ov))
                                            (int i * max 1 (s - ov) + s))"
      by (simp add: ct chunk_step_def)
  qed
  show "int (length (py_split T)) \<le> int (length (chunk_text T s ov)) * max 1 (s - ov) \<or>
    py_slice (py_split T) (int (length (chunk_text T s ov)) * max 1 (s - ov))
                          (int (length (chunk_text T s ov)) * max 1 (s - ov) + s) = []"
    using chunk_tail_stop [of "length (chunk_text T s ov)" "py_split T" s ov 0]
    by (simp add: ct chunk_step_def)
qed

theorem chunk_text_terminates_witness:
  "chunk_step 3 1 = 2 \<and>
   chunk_text_run ''a b c d e'' 3 1 = Some [''a b c'', ''c d e'', ''e''] \<and>
   [''a b c'', ''c d e'', ''e''] ! 1 = py_join '' '' (py_slice [''a'', ''b'', ''c'', ''d'', ''e''] 2 5) \<and>
   chunk_text_run ''a b c'' 2 5 = Some [''a b'', ''b c'', ''c'']"
  using chunk_text_terminates [of 3 1 "''a b c d e''"] chunk_text_terminates [of 2 5 "''a b c''"]
  by (simp add: chunk_text_def py_split_def is_space_def chunk_loop.simps py_slice_def
        chunk_step_def Let_def)

section \<open>The embedding cache\<close>

text \<open>
  C6: for every cache key, when the chunk artifact or the embedding artifact is absent,
  loading raises \<open>FileNotFoundError\<close> and returns neither artifact, also when the other
  one is present.
\<close>

theorem partial_cache_is_miss:
  "chunk_files st b = None \<or> emb_files st b = None \<Longrightarrow>
   load_cached_chunks_and_embeddings st b = Inl (FileNotFoundError ''Cache files not found'')"
  by (simp add: load_cached_chunks_and_embeddings_def)

theorem partial_cache_is_miss_witness:
  "emb_files (empty_store\<lparr>chunk_files := [''k'' \<mapsto> Parsed []]\<rparr>) ''k'' = None \<and>
   chunk_files (empty_store\<lparr>chunk_files := [''k'' \<mapsto> Parsed []]\<rparr>) ''k'' = Some (Parsed []) \<and>
   load_cached_chunks_and_embeddings (empty_store\<lparr>chunk_files := [''k'' \<mapsto> Parsed []]\<rparr>) ''k''
     = Inl (FileNotFoundError ''Cache files not found'')"
  using partial_cache_is_miss [of "empty_store\<lparr>chunk_files := [''k'' \<mapsto> Parsed []]\<rparr>" "''k''"]
  by (simp add: empty_store_def)

section \<open>The retriever\<close>


text \<open>
  C10: a question that is empty or all whitespace raises
  \<open>ValueError("Question must not be empty")\<close>; the tutor is as before: nothing was encoded,
  no search was made, docstore and index are unchanged.
\<close>

theorem blank_question_rejected:
  "\<forall>c\<in>set q. is_space c \<Longrightarrow>
   retrieve_context env t q = (Inl (ValueError ''Question must not be empty''), t)"
  by (simp add: retrieve_context_def py_strip_blank_iff)

theorem blank_question_rejected_witness:
  "list_all is_space ''  '' \<and>
   retrieve_context length_env
     \<lparr>t_docstore = [\<lparr>c_id = ''f::chunk_0'', c_text = ''alpha beta'', c_source_file = ''f'',
                     c_chunk_index = 0\<rparr>],
      t_index = [10], t_encoded = [], t_searched = []\<rparr> ''  ''
   = (Inl (ValueError ''Question must not be empty''),
      \<lparr>t_docstore = [\<lparr>c_id = ''f::chunk_0'', c_text = ''alpha beta'', c_source_file = ''f'',
                      c_chunk_index = 0\<rparr>],
       t_index = [10], t_encoded = [], t_searched = []\<rparr>)"
  using blank_question_rejected [of "''  ''" length_env
     "\<lparr>t_docstore = [\<lparr>c_id = ''f::chunk_0'', c_text = ''alpha beta'', c_source_file = ''f'',
                      c_chunk_index = 0\<rparr>],
       t_index = [10], t_encoded = [], t_searched = []\<rparr>"]
  by (simp add: is_space_def)

lemma total_len_append [simp]: "total_len (a @ b) = total_len a + total_len b"
  by (simp add: total_len_def)

lemma total_len_single [simp]: "total_len [c] = int (length (c_text c))"
  by (simp add: total_len_def)

lemma collect_general:
  "collect_context ds idxs (ch0, map c_text ch0, total_len ch0) = (ch, p, t) \<Longrightarrow>
   \<exists>m\<le>length (candidates ds idxs).
      ch = ch0 @ take m (candidates ds idxs) \<and> p = map c_text ch \<and> t = total_len ch \<and>
      (\<forall>j<m. (ch0 = [] \<and> j = 0) \<or>
               total_len (ch0 @ take (Suc j) (candidates ds idxs)) \<le> MAX_CONTEXT_CHARS) \<and>
      (m < length (candidates ds idxs) \<longrightarrow>
         MAX_CONTEXT_CHARS < total_len (ch0 @ take (Suc m) (candidates ds idxs)) \<and>
         ch0 @ take m (candidates ds idxs) \<noteq> [])"
proof (induction idxs arbitrary: ch0)
  case Nil
  then show ?case by (auto simp: candidates_def)
next
  case (Cons idx idxs)
  show ?case
  proof (cases "usable ds idx")
    case False
    then have skip: "collect_context ds (idx # idxs) (ch0, map c_text ch0, total_len ch0)
        = collect_context ds idxs (ch0, map c_text ch0, total_len ch0)"
      by (auto simp: usable_def Let_def)
    have same: "candidates ds (idx # idxs) = candidates ds idxs"
      using False by (simp add: candidates_def)
    show ?thesis using Cons.IH [of ch0] Cons.prems skip same by simp
  next
    case True
    let ?c = "ds ! nat idx"
    have U: "candidates ds (idx # idxs) = ?c # candidates ds idxs"
      using True by (simp add: candidates_def)
    have inr: "\<not> (idx < 0 \<or> idx \<ge> int (length ds))" "c_text ?c \<noteq> []"
      using True by (auto simp: usable_def)
    show ?thesis
    proof (cases "total_len ch0 + int (length (c_text ?c)) > MAX_CONTEXT_CHARS \<and> ch0 \<noteq> []")
      case brk: True
      then have "collect_context ds (idx # idxs) (ch0, map c_text ch0, total_len ch0)
          = (ch0, map c_text ch0, total_len ch0)"
        using inr by (simp add: Let_def)
      with Cons.prems have res: "ch = ch0" "p = map c_text ch0" "t = total_len ch0" by simp_all
      show ?thesis
        by (rule exI [of _ 0]) (use res brk U in simp)
    next
      case go: False
      then have "collect_context ds (idx # idxs) (ch0, map c_text ch0, total_len ch0)
          = collect_context ds idxs
              ((ch0 @ [?c]), map c_text (ch0 @ [?c]), total_len (ch0 @ [?c]))"
        using inr by (auto simp: Let_def)
      with Cons.prems have
        "collect_context ds idxs ((ch0 @ [?c]), map c_text (ch0 @ [?c]), total_len (ch0 @ [?c]))
           = (ch, p, t)" by simp
      from Cons.IH [OF this] obtain m where m:
        "m \<le> length (candidates ds idxs)"
        "ch = (ch0 @ [?c]) @ take m (candidates ds idxs)" "p = map c_text ch" "t = total_len ch"
        "\<forall>j<m. ((ch0 @ [?c]) = [] \<and> j = 0) \<or>
               total_len ((ch0 @ [?c]) @ take (Suc j) (candidates ds idxs)) \<le> MAX_CONTEXT_CHARS"
        "m < length (candidates ds idxs) \<longrightarrow>
           MAX_CONTEXT_CHARS < total_len ((ch0 @ [?c]) @ take (Suc m) (candidates ds idxs)) \<and>
           (ch0 @ [?c]) @ take m (candidates ds idxs) \<noteq> []"
        by blast
      have budget: "\<forall>j<Suc m. (ch0 = [] \<and> j = 0) \<or>
               total_len (ch0 @ take (Suc j) (?c # candidates ds idxs)) \<le> MAX_CONTEXT_CHARS"
      proof (intro allI impI)
        fix j assume j: "j < Suc m"
        show "(ch0 = [] \<and> j = 0) \<or>
               total_len (ch0 @ take (Suc j) (?c # candidates ds idxs)) \<le> MAX_CONTEXT_CHARS"
        proof (cases j)
          case 0
          then show ?thesis using go by auto
        next
          case (Suc j')
          then have "j' < m" using j by simp
          with m(5) have "total_len ((ch0 @ [?c]) @ take (Suc j') (candidates ds idxs)) \<le> MAX_CONTEXT_CHARS"
            by auto
          then show ?thesis using Suc by simp
        qed
      qed
      show ?thesis
        by (rule exI [of _ "Suc m"]) (use m budget U in auto)
    qed
  qed
qed

lemma py_join_nonempty: "x \<noteq> [] \<Longrightarrow> py_join sep (x # xs) \<noteq> []"
  by (cases xs) auto

lemma candidates_text: "c \<in> set (candidates ds idxs) \<Longrightarrow> c_text c \<noteq> []"
  by (auto simp: candidates_def usable_def)


text \<open>
  C3: for a non-blank question against a non-empty docstore, the context is built from a
  prefix of the candidates in ranked order, joined by blank lines. The first candidate is
  always in it, whatever its length, so the context is not empty when there is a
  candidate; every later candidate that was added kept the running total within
  \<open>MAX_CONTEXT_CHARS\<close>; and when a candidate was left out, adding it would have pushed the
  total over \<open>MAX_CONTEXT_CHARS\<close>.
\<close>

theorem context_within_budget:
  assumes q: "py_strip q \<noteq> []"
      and ds: "t_docstore t \<noteq> []"
      and enc: "encode env [q] = Some qe"
      and srch: "search env (t_index t) qe
                   (nat (min TOP_K_CHUNKS (int (length (t_docstore t))))) = idxs # others"
  shows "\<exists>m\<le>length (candidates (t_docstore t) idxs).
           fst (retrieve_context env t q) =
             Inr (py_join [CHR 0x0A, CHR 0x0A] (map c_text (take m (candidates (t_docstore t) idxs))),
                  take m (candidates (t_docstore t) idxs)) \<and>
           (candidates (t_docstore t) idxs \<noteq> [] \<longrightarrow>
              1 \<le> m \<and>
              py_join [CHR 0x0A, CHR 0x0A] (map c_text (take m (candidates (t_docstore t) idxs))) \<noteq> []) \<and>
           (\<forall>j. 1 \<le> j \<and> j < m \<longrightarrow>
              total_len (take (Suc j) (candidates (t_docstore t) idxs)) \<le> MAX_CONTEXT_CHARS) \<and>
           (m < length (candidates (t_docstore t) idxs) \<longrightarrow>
              MAX_CONTEXT_CHARS < total_len (take (Suc m) (candidates (t_docstore t) idxs)))"
proof -
  let ?U = "candidates (t_docstore t) idxs"
  obtain ch p tt where cc: "collect_context (t_docstore t) idxs ([], [], 0) = (ch, p, tt)"
    by (cases "collect_context (t_docstore t) idxs ([], [], 0)") auto
  then have "collect_context (t_docstore t) idxs ([], map c_text [], total_len []) = (ch, p, tt)"
    by (simp add: total_len_def)
  from collect_general [OF this] obtain m where m:
    "m \<le> length ?U" "ch = take m ?U" "p = map c_text ch"
    "\<forall>j<m. j = 0 \<or> total_len (take (Suc j) ?U) \<le> MAX_CONTEXT_CHARS"
    "m < length ?U \<longrightarrow> MAX_CONTEXT_CHARS < total_len (take (Suc m) ?U) \<and> take m ?U \<noteq> []"
    by auto
  have kpos: "\<not> min TOP_K_CHUNKS (int (length (t_docstore t))) \<le> 0"
    using ds by (cases "t_docstore t") (simp_all add: TOP_K_CHUNKS_def)
  have res: "fst (retrieve_context env t q) = Inr (py_join [CHR 0x0A, CHR 0x0A] p, ch)"
    using q enc srch kpos cc by (simp add: retrieve_context_def Let_def)
  have first: "?U \<noteq> [] \<longrightarrow> 1 \<le> m \<and> py_join [CHR 0x0A, CHR 0x0A] (map c_text (take m ?U)) \<noteq> []"
  proof
    assume ne: "?U \<noteq> []"
    have m1: "1 \<le> m"
    proof (rule ccontr)
      assume "\<not> 1 \<le> m"
      then have "m = 0" by simp
      with m(5) ne show False by simp
    qed
    obtain c cs where U: "?U = c # cs" using ne by (cases ?U) auto
    then have "c \<in> set ?U" by simp
    then have "c_text c \<noteq> []" by (rule candidates_text)
    moreover obtain m' where "m = Suc m'" using m1 by (cases m) auto
    ultimately have "py_join [CHR 0x0A, CHR 0x0A] (map c_text (take m ?U)) \<noteq> []"
      using U by (simp add: py_join_nonempty)
    with m1 show "1 \<le> m \<and> py_join [CHR 0x0A, CHR 0x0A] (map c_text (take m ?U)) \<noteq> []" by simp
  qed
  show ?thesis
    by (rule exI [of _ m]) (use m res first in auto)
qed

lemma demo_candidates: "candidates (t_docstore demo_tutor) [0, 1] = [long_chunk, short_chunk]"
  by (simp add: candidates_def usable_def demo_tutor_def long_chunk_def short_chunk_def)

theorem context_within_budget_witness:
  "py_strip ''cell'' \<noteq> [] \<and> encode length_env [''cell''] = Some [4] \<and>
   search length_env (t_index demo_tutor) [4]
      (nat (min TOP_K_CHUNKS (int (length (t_docstore demo_tutor))))) = [[0, 1]] \<and>
   MAX_CONTEXT_CHARS < total_len [long_chunk] \<and>
   fst (retrieve_context length_env demo_tutor ''cell'') = Inr (c_text long_chunk, [long_chunk])"
proof -
  have q: "py_strip ''cell'' \<noteq> []" by (simp add: py_strip_def is_space_def)
  have ds: "t_docstore demo_tutor \<noteq> []" by (simp add: demo_tutor_def)
  have enc: "encode length_env [''cell''] = Some [4]" by (simp add: length_env_def)
  have srch: "search length_env (t_index demo_tutor) [4]
      (nat (min TOP_K_CHUNKS (int (length (t_docstore demo_tutor))))) = [0, 1] # []"
    by (simp add: length_env_def demo_tutor_def TOP_K_CHUNKS_def upt_rec)
  have big: "MAX_CONTEXT_CHARS < total_len [long_chunk]"
    by (simp add: MAX_CONTEXT_CHARS_def long_chunk_def)
  have big2: "\<not> total_len [long_chunk, short_chunk] \<le> MAX_CONTEXT_CHARS"
    by (simp add: MAX_CONTEXT_CHARS_def long_chunk_def short_chunk_def total_len_def)
  let ?U = "[long_chunk, short_chunk]"
  have "\<exists>m\<le>length ?U.
           fst (retrieve_context length_env demo_tutor ''cell'') =
             Inr (py_join [CHR 0x0A, CHR 0x0A] (map c_text (take m ?U)), take m ?U) \<and>
           (?U \<noteq> [] \<longrightarrow>
              1 \<le> m \<and> py_join [CHR 0x0A, CHR 0x0A] (map c_text (take m ?U)) \<noteq> []) \<and>
           (\<forall>j. 1 \<le> j \<and> j < m \<longrightarrow> total_len (take (Suc j) ?U) \<le> MAX_CONTEXT_CHARS) \<and>
           (m < length ?U \<longrightarrow> MAX_CONTEXT_CHARS < total_len (take (Suc m) ?U))"
    using context_within_budget [OF q ds enc srch] unfolding demo_candidates .
  then obtain m where m:
    "m \<le> length ?U"
    "fst (retrieve_context length_env demo_tutor ''cell'') =
       Inr (py_join [CHR 0x0A, CHR 0x0A] (map c_text (take m ?U)), take m ?U)"
    "?U \<noteq> [] \<longrightarrow> 1 \<le> m \<and> py_join [CHR 0x0A, CHR 0x0A] (map c_text (take m ?U)) \<noteq> []"
    "\<forall>j. 1 \<le> j \<and> j < m \<longrightarrow> total_len (take (Suc j) ?U) \<le> MAX_CONTEXT_CHARS"
    by blast
  have "m = 1"
  proof (rule ccontr)
    assume "m \<noteq> 1"
    with m(1,3) have m2: "m = 2" by simp
    have "1 \<le> (1::nat) \<and> 1 < m" using m2 by simp
    with m(4) have "total_len (take (Suc 1) [long_chunk, short_chunk]) \<le> MAX_CONTEXT_CHARS"
      by blast
    with big2 show False by simp
  qed
  with m(2) have "fst (retrieve_context length_env demo_tutor ''cell'') = Inr (c_text long_chunk, [long_chunk])"
    by simp
  with q enc srch big show ?thesis by simp
qed


section \<open>The index builder\<close>

lemma per_file_chunks_text: "map c_text (per_file_chunks fid p cts) = cts"
proof -
  have "map c_text (per_file_chunks fid p cts) = map snd (enumerate 0 cts)"
    by (simp add: per_file_chunks_def case_prod_unfold comp_def)
  then show ?thesis by (simp add: enumerate_eq_zip)
qed

lemma per_file_chunks_length: "length (per_file_chunks fid p cts) = length cts"
  by (simp add: per_file_chunks_def)

lemma per_file_chunks_nonempty: "cts \<noteq> [] \<Longrightarrow> per_file_chunks fid p cts \<noteq> []"
  using per_file_chunks_length [of fid p cts] by auto

lemma load_cached_hit:
  "load_cached_chunks_and_embeddings st b = Inr (cs, es) \<longleftrightarrow>
     chunk_files st b = Some (Parsed cs) \<and> emb_files st b = Some (Parsed es)"
  by (auto simp: load_cached_chunks_and_embeddings_def split: option.splits artifact.splits)

lemma load_cached_miss:
  "load_cached_chunks_and_embeddings st b = Inl e \<Longrightarrow>
   e = FileNotFoundError ''Cache files not found'' \<or> e = DecodeError"
  by (auto simp: load_cached_chunks_and_embeddings_def
           split: option.splits artifact.splits if_splits)

lemma cache_lookup_cases:
  "cache_lookup env bs f = Inr None \<or> cache_lookup env bs f = Inl DecodeError \<or>
   (\<exists>cs es prev. cache_lookup env bs f = Inr (Some (cs, es)) \<and>
      map_of (existing_meta bs) (path_str f) = Some prev \<and>
      rec_mtime_ns prev = st_mtime_ns f \<and> rec_size prev = st_size f \<and>
      chunk_files (disk bs) (compute_file_id env (path_str f)) = Some (Parsed cs) \<and>
      emb_files (disk bs) (compute_file_id env (path_str f)) = Some (Parsed es))"
proof (cases "load_cached_chunks_and_embeddings (disk bs) (compute_file_id env (path_str f))")
  case (Inl e)
  then have "e = FileNotFoundError ''Cache files not found'' \<or> e = DecodeError"
    by (rule load_cached_miss)
  with Inl show ?thesis by (auto simp: cache_lookup_def split: option.splits)
next
  case (Inr ce)
  obtain cs es where ce: "ce = (cs, es)" by (cases ce)
  with Inr have "chunk_files (disk bs) (compute_file_id env (path_str f)) = Some (Parsed cs)"
    "emb_files (disk bs) (compute_file_id env (path_str f)) = Some (Parsed es)"
    by (simp_all add: load_cached_hit)
  with Inr ce show ?thesis by (simp add: cache_lookup_def split: option.splits)
qed

text \<open>The three ways a step can end well.\<close>

lemma process_file_cases:
  assumes "process_file env bs f = Inr bs'"
  obtains
    (reused) cs es where
      "chunk_files (disk bs) (compute_file_id env (path_str f)) = Some (Parsed cs)"
      "emb_files (disk bs) (compute_file_id env (path_str f)) = Some (Parsed es)"
      "bs' = bs\<lparr>all_chunks := all_chunks bs @ cs, all_embeddings := all_embeddings bs @ [es]\<rparr>"
  | (skipped) reason where
      "bs' = bs\<lparr>runtime_unsupported := runtime_unsupported bs @ [(path_str f, reason)]\<rparr>"
  | (computed) cts es where
      "cts \<noteq> []" "encode env cts = Some es"
      "bs' = bs\<lparr>all_chunks := all_chunks bs @ per_file_chunks (compute_file_id env (path_str f)) (path_str f) cts,
                 all_embeddings := all_embeddings bs @ [es],
                 existing_meta := AList.update (path_str f)
                     \<lparr>rec_path = path_str f, rec_file_id = compute_file_id env (path_str f),
                      rec_mtime_ns = st_mtime_ns f, rec_size = st_size f,
                      rec_cache_basename = compute_file_id env (path_str f)\<rparr> (existing_meta bs),
                 disk := save_cached_chunks_and_embeddings (disk bs) (compute_file_id env (path_str f))
                           (per_file_chunks (compute_file_id env (path_str f)) (path_str f) cts) es,
                 encode_calls := encode_calls bs @ [cts]\<rparr>"
proof -
  from cache_lookup_cases [of env bs f] show thesis
  proof (elim disjE)
    assume "cache_lookup env bs f = Inl DecodeError"
    with assms show thesis by (simp add: process_file_def)
  next
    assume miss: "cache_lookup env bs f = Inr None"
    with assms have rc: "recompute env bs f = Inr bs'" by (simp add: process_file_def)
    obtain tx reason where lt: "load_text_from_file f = (tx, reason)"
      by (cases "load_text_from_file f")
    show thesis
    proof (cases tx)
      case None
      with rc lt show thesis by (intro skipped) (auto simp: recompute_def Let_def)
    next
      case (Some body)
      show thesis
      proof (cases "chunk_text body CHUNK_SIZE_WORDS CHUNK_OVERLAP_WORDS = []")
        case True
        with rc lt Some show thesis by (intro skipped) (auto simp: recompute_def Let_def)
      next
        case False
        with rc lt Some obtain es where
          "encode env (chunk_text body CHUNK_SIZE_WORDS CHUNK_OVERLAP_WORDS) = Some es"
          by (auto simp: recompute_def Let_def split: option.splits)
        with rc lt Some False show thesis
          by (intro computed [of "chunk_text body CHUNK_SIZE_WORDS CHUNK_OVERLAP_WORDS" es])
             (auto simp: recompute_def Let_def)
      qed
    qed
  next
    assume "\<exists>cs es prev. cache_lookup env bs f = Inr (Some (cs, es)) \<and>
      map_of (existing_meta bs) (path_str f) = Some prev \<and>
      rec_mtime_ns prev = st_mtime_ns f \<and> rec_size prev = st_size f \<and>
      chunk_files (disk bs) (compute_file_id env (path_str f)) = Some (Parsed cs) \<and>
      emb_files (disk bs) (compute_file_id env (path_str f)) = Some (Parsed es)"
    then obtain cs es where
      "cache_lookup env bs f = Inr (Some (cs, es))"
      "chunk_files (disk bs) (compute_file_id env (path_str f)) = Some (Parsed cs)"
      "emb_files (disk bs) (compute_file_id env (path_str f)) = Some (Parsed es)" by blast
    with assms show thesis by (intro reused [of cs es]) (auto simp: process_file_def)
  qed
qed


lemma save_cache_nonempty:
  "cache_nonempty st \<Longrightarrow> cs \<noteq> [] \<Longrightarrow>
   cache_nonempty (save_cached_chunks_and_embeddings st b cs es)"
  by (auto simp: cache_nonempty_def save_cached_chunks_and_embeddings_def)



lemma step_nonempty:
  assumes step: "process_file env bs f = Inr bs'"
      and inv: "all_embeddings bs \<noteq> [] \<longrightarrow> all_chunks bs \<noteq> []" "cache_nonempty (disk bs)"
  shows "(all_embeddings bs' \<noteq> [] \<longrightarrow> all_chunks bs' \<noteq> []) \<and> cache_nonempty (disk bs')"
  using step
proof (cases rule: process_file_cases)
  case (reused cs es)
  then have "cs \<noteq> []" using inv(2) by (auto simp: cache_nonempty_def)
  with reused inv show ?thesis by simp
next
  case (skipped reason)
  with inv show ?thesis by simp
next
  case (computed cts es)
  then show ?thesis using inv by (simp add: per_file_chunks_nonempty save_cache_nonempty)
qed

lemma loop_nonempty:
  "build_loop env bs fs = Inr bs' \<Longrightarrow>
   all_embeddings bs \<noteq> [] \<longrightarrow> all_chunks bs \<noteq> [] \<Longrightarrow> cache_nonempty (disk bs) \<Longrightarrow>
   (all_embeddings bs' \<noteq> [] \<longrightarrow> all_chunks bs' \<noteq> []) \<and> cache_nonempty (disk bs')"
proof (induction fs arbitrary: bs)
  case Nil
  then show ?case by simp
next
  case (Cons f fs)
  from Cons.prems(1) obtain bs1 where s1: "process_file env bs f = Inr bs1"
    and rest: "build_loop env bs1 fs = Inr bs'"
    by (auto split: sum.splits)
  from step_nonempty [OF s1 Cons.prems(2) Cons.prems(3)]
  show ?case using Cons.IH [OF rest] by blast
qed

text \<open>The loop writes cache files only.\<close>

lemma step_artifacts:
  assumes "process_file env bs f = Inr bs'"
  shows "faiss_index_file (disk bs') = faiss_index_file (disk bs) \<and>
         docstore_file (disk bs') = docstore_file (disk bs) \<and>
         metadata_file (disk bs') = metadata_file (disk bs)"
  using assms
  by (cases rule: process_file_cases) (simp_all add: save_cached_chunks_and_embeddings_def)

lemma loop_artifacts:
  "build_loop env bs fs = Inr bs' \<Longrightarrow>
   faiss_index_file (disk bs') = faiss_index_file (disk bs) \<and>
   docstore_file (disk bs') = docstore_file (disk bs) \<and>
   metadata_file (disk bs') = metadata_file (disk bs)"
proof (induction fs arbitrary: bs)
  case Nil
  then show ?case by simp
next
  case (Cons f fs)
  from Cons.prems(1) obtain bs1 where s1: "process_file env bs f = Inr bs1"
    and rest: "build_loop env bs1 fs = Inr bs'"
    by (auto split: sum.splits)
  from step_artifacts [OF s1] Cons.IH [OF rest] show ?case by simp
qed

lemma build_result:
  assumes "build_or_update_index env st listing = Inr r"
  obtains bs where
    "build_loop env (initial_build_state st) (fst (discover_textbook_files listing)) = Inr bs"
    "r = finish_build bs (snd (discover_textbook_files listing))"
  using assms
  by (auto simp: build_or_update_index_def case_prod_unfold Let_def split: sum.splits)



lemma build_preserves_cache_nonempty:
  assumes cache: "cache_nonempty st"
      and build: "build_or_update_index env st listing = Inr (md, st', calls)"
  shows "cache_nonempty st'"
proof -
  from build obtain bs where
    loop: "build_loop env (initial_build_state st) (fst (discover_textbook_files listing)) = Inr bs"
    and r: "(md, st', calls) = finish_build bs (snd (discover_textbook_files listing))"
    by (rule build_result)
  have "all_embeddings (initial_build_state st) \<noteq> [] \<longrightarrow> all_chunks (initial_build_state st) \<noteq> []"
    "cache_nonempty (disk (initial_build_state st))"
    using cache by (simp_all add: initial_build_state_def)
  from loop_nonempty [OF loop this] have "cache_nonempty (disk bs)" by simp
  moreover have "chunk_files st' = chunk_files (disk bs)" "emb_files st' = emb_files (disk bs)"
    using r by (simp_all add: finish_build_def Let_def split: if_splits)
  ultimately show ?thesis by (simp add: cache_nonempty_def)
qed

text \<open>
  C7: when the loop ends with no chunk, on a disk whose cache has no empty entry, the build
  returns metadata with \<open>total_chunks = 0\<close> and \<open>index_built = False\<close>, saves that metadata,
  and leaves the index file and the docstore file as they were. The cache still has no
  empty entry afterwards.
\<close>

theorem empty_corpus_not_built:
  assumes cache: "cache_nonempty st"
      and loop: "build_loop env (initial_build_state st) (fst (discover_textbook_files listing)) = Inr bs"
      and zero: "all_chunks bs = []"
  shows "\<exists>md st' calls.
           build_or_update_index env st listing = Inr (md, st', calls) \<and>
           total_chunks md = 0 \<and> \<not> index_built md \<and>
           metadata_file st' = Some md \<and>
           faiss_index_file st' = faiss_index_file st \<and>
           docstore_file st' = docstore_file st \<and>
           cache_nonempty st'"
proof -
  have "all_embeddings (initial_build_state st) \<noteq> [] \<longrightarrow> all_chunks (initial_build_state st) \<noteq> []"
    "cache_nonempty (disk (initial_build_state st))"
    using cache by (simp_all add: initial_build_state_def)
  from loop_nonempty [OF loop this] zero have emp: "all_embeddings bs = []" by blast
  from loop_artifacts [OF loop]
  have art: "faiss_index_file (disk bs) = faiss_index_file st"
    "docstore_file (disk bs) = docstore_file st"
    by (simp_all add: initial_build_state_def)
  obtain md st' calls where fin:
    "finish_build bs (snd (discover_textbook_files listing)) = (md, st', calls)"
    by (cases "finish_build bs (snd (discover_textbook_files listing))") auto
  have b: "build_or_update_index env st listing = Inr (md, st', calls)"
    using loop fin by (simp add: build_or_update_index_def case_prod_unfold Let_def)
  have props: "total_chunks md = 0" "\<not> index_built md" "metadata_file st' = Some md"
    "faiss_index_file st' = faiss_index_file st" "docstore_file st' = docstore_file st"
    using fin emp art by (auto simp: finish_build_def Let_def)
  have "cache_nonempty st'" using cache b by (rule build_preserves_cache_nonempty)
  with b props show ?thesis by blast
qed

lemmas build_eval =
  build_or_update_index_def initial_build_state_def finish_build_def process_file_def
  cache_lookup_def recompute_def load_text_from_file_def load_existing_file_metadata_def
  load_cached_chunks_and_embeddings_def save_cached_chunks_and_embeddings_def
  empty_store_def length_env_def failing_env_def txt_file_def SUPPORTED_EXTENSIONS_def
  py_strip_def is_space_def chunk_text_def py_split_def chunk_loop.simps py_slice_def
  chunk_step_def CHUNK_SIZE_WORDS_def CHUNK_OVERLAP_WORDS_def per_file_chunks_def
  show_nat.simps Let_def

lemma cache_lookup_stale:
  "\<not> unchanged (existing_meta bs) f \<Longrightarrow> cache_lookup env bs f = Inr None"
  by (auto simp: unchanged_def cache_lookup_def split: option.splits)

lemma cache_lookup_hit:
  "unchanged (existing_meta bs) f \<Longrightarrow>
   chunk_files (disk bs) (compute_file_id env (path_str f)) = Some (Parsed cs) \<Longrightarrow>
   emb_files (disk bs) (compute_file_id env (path_str f)) = Some (Parsed es) \<Longrightarrow>
   cache_lookup env bs f = Inr (Some (cs, es))"
  by (auto simp: unchanged_def cache_lookup_def load_cached_chunks_and_embeddings_def
           split: option.splits)

lemma cache_lookup_miss:
  "chunk_files (disk bs) (compute_file_id env (path_str f)) = None \<or>
   emb_files (disk bs) (compute_file_id env (path_str f)) = None \<Longrightarrow>
   cache_lookup env bs f = Inr None"
  by (auto simp: cache_lookup_def load_cached_chunks_and_embeddings_def split: option.splits)

lemma cache_lookup_malformed:
  "unchanged (existing_meta bs) f \<Longrightarrow>
   chunk_files (disk bs) (compute_file_id env (path_str f)) = Some c \<Longrightarrow>
   emb_files (disk bs) (compute_file_id env (path_str f)) = Some e \<Longrightarrow>
   c = Malformed \<or> e = Malformed \<Longrightarrow>
   cache_lookup env bs f = Inl DecodeError"
  by (auto simp: unchanged_def cache_lookup_def load_cached_chunks_and_embeddings_def
           split: option.splits artifact.splits)

lemma chunk_text_nonempty:
  assumes "py_split T \<noteq> []" "1 \<le> s"
  shows "chunk_text T s ov \<noteq> []"
proof -
  let ?ws = "py_split T"
  have sl: "py_slice ?ws 0 (0 + s) \<noteq> []"
    using assms by (cases ?ws) (auto simp: py_slice_def Let_def)
  have "0 < int (length ?ws)" using assms(1) by simp
  from chunk_loop_unfold_go [OF this sl, of ov "[]"]
  have "chunk_loop ?ws s ov 0 [] =
        chunk_loop ?ws s ov (0 + chunk_step s ov) [py_join '' '' (py_slice ?ws 0 (0 + s))]"
    by simp
  then have "chunk_loop ?ws s ov 0 [] \<noteq> []"
    using chunk_loop_acc [of ?ws s ov "0 + chunk_step s ov" "[py_join '' '' (py_slice ?ws 0 (0 + s))]"]
    by simp
  then show ?thesis using assms(1) by (simp add: chunk_text_def Let_def)
qed

lemma load_text_some:
  "load_text_from_file f = (Some body, r) \<Longrightarrow> py_strip body \<noteq> []"
  by (auto simp: load_text_from_file_def Let_def split: if_splits loaded.splits)

lemma loaded_text_chunks:
  "load_text_from_file f = (Some body, r) \<Longrightarrow>
   chunk_text body CHUNK_SIZE_WORDS CHUNK_OVERLAP_WORDS \<noteq> []"
  by (rule chunk_text_nonempty)
     (auto dest: load_text_some simp: py_split_nonblank CHUNK_SIZE_WORDS_def)

text \<open>
  C2, as the code has it, for the loop body on any file and any state of the loop. With a
  record whose \<open>mtime_ns\<close> and size equal the file's and both cache artifacts present, the
  cached chunks and rows are appended as they are, and nothing else changes: no chunking,
  no call of the encoder, no write (an artifact that is there and does not parse makes the
  load raise instead). With a record and a missing artifact, or with no such record, the
  file is recomputed: when extraction gives a text, it is chunked, the encoder
  is called once with the chunk texts, and the cache and the record are written; when
  extraction gives no text, the file is recorded as unsupported and nothing is encoded.
\<close>

theorem fingerprint_decides_reuse:
  "(unchanged (existing_meta bs) f \<and>
    chunk_files (disk bs) (compute_file_id env (path_str f)) = Some (Parsed cs) \<and>
    emb_files (disk bs) (compute_file_id env (path_str f)) = Some (Parsed es) \<longrightarrow>
      process_file env bs f =
        Inr (bs\<lparr>all_chunks := all_chunks bs @ cs, all_embeddings := all_embeddings bs @ [es]\<rparr>)) \<and>
   (unchanged (existing_meta bs) f \<and>
    (chunk_files (disk bs) (compute_file_id env (path_str f)) = None \<or>
     emb_files (disk bs) (compute_file_id env (path_str f)) = None) \<longrightarrow>
      process_file env bs f = recompute env bs f) \<and>
   (unchanged (existing_meta bs) f \<and>
    chunk_files (disk bs) (compute_file_id env (path_str f)) = Some c \<and>
    emb_files (disk bs) (compute_file_id env (path_str f)) = Some e \<and>
    (c = Malformed \<or> e = Malformed) \<longrightarrow>
      process_file env bs f = Inl DecodeError) \<and>
   (\<not> unchanged (existing_meta bs) f \<longrightarrow> process_file env bs f = recompute env bs f) \<and>
   (load_text_from_file f = (Some body, r) \<and>
    encode env (chunk_text body CHUNK_SIZE_WORDS CHUNK_OVERLAP_WORDS) = Some embeddings \<longrightarrow>
      recompute env bs f =
        Inr (bs\<lparr>all_chunks := all_chunks bs @
                     per_file_chunks (compute_file_id env (path_str f)) (path_str f)
                       (chunk_text body CHUNK_SIZE_WORDS CHUNK_OVERLAP_WORDS),
                all_embeddings := all_embeddings bs @ [embeddings],
                existing_meta := AList.update (path_str f)
                     \<lparr>rec_path = path_str f, rec_file_id = compute_file_id env (path_str f),
                      rec_mtime_ns = st_mtime_ns f, rec_size = st_size f,
                      rec_cache_basename = compute_file_id env (path_str f)\<rparr> (existing_meta bs),
                disk := save_cached_chunks_and_embeddings (disk bs)
                          (compute_file_id env (path_str f))
                          (per_file_chunks (compute_file_id env (path_str f)) (path_str f)
                             (chunk_text body CHUNK_SIZE_WORDS CHUNK_OVERLAP_WORDS))
                          embeddings,
                encode_calls := encode_calls bs @
                     [chunk_text body CHUNK_SIZE_WORDS CHUNK_OVERLAP_WORDS]\<rparr>)) \<and>
   (load_text_from_file f = (None, Some reason) \<longrightarrow>
      recompute env bs f =
        Inr (bs\<lparr>runtime_unsupported := runtime_unsupported bs @
                     [(path_str f, if reason = [] then ''unreadable'' else reason)]\<rparr>))"
proof (intro conjI impI)
  assume "unchanged (existing_meta bs) f \<and>
    chunk_files (disk bs) (compute_file_id env (path_str f)) = Some (Parsed cs) \<and>
    emb_files (disk bs) (compute_file_id env (path_str f)) = Some (Parsed es)"
  then have "cache_lookup env bs f = Inr (Some (cs, es))" by (simp add: cache_lookup_hit)
  then show "process_file env bs f =
        Inr (bs\<lparr>all_chunks := all_chunks bs @ cs, all_embeddings := all_embeddings bs @ [es]\<rparr>)"
    by (simp add: process_file_def)
next
  assume "unchanged (existing_meta bs) f \<and>
    (chunk_files (disk bs) (compute_file_id env (path_str f)) = None \<or>
     emb_files (disk bs) (compute_file_id env (path_str f)) = None)"
  then have "cache_lookup env bs f = Inr None" by (simp add: cache_lookup_miss)
  then show "process_file env bs f = recompute env bs f" by (simp add: process_file_def)
next
  assume "unchanged (existing_meta bs) f \<and>
    chunk_files (disk bs) (compute_file_id env (path_str f)) = Some c \<and>
    emb_files (disk bs) (compute_file_id env (path_str f)) = Some e \<and>
    (c = Malformed \<or> e = Malformed)"
  then have "cache_lookup env bs f = Inl DecodeError" by (simp add: cache_lookup_malformed)
  then show "process_file env bs f = Inl DecodeError" by (simp add: process_file_def)
next
  assume "\<not> unchanged (existing_meta bs) f"
  then have "cache_lookup env bs f = Inr None" by (rule cache_lookup_stale)
  then show "process_file env bs f = recompute env bs f" by (simp add: process_file_def)
next
  assume h: "load_text_from_file f = (Some body, r) \<and>
    encode env (chunk_text body CHUNK_SIZE_WORDS CHUNK_OVERLAP_WORDS) = Some embeddings"
  then have "chunk_text body CHUNK_SIZE_WORDS CHUNK_OVERLAP_WORDS \<noteq> []"
    by (auto dest: loaded_text_chunks)
  with h show "recompute env bs f =
        Inr (bs\<lparr>all_chunks := all_chunks bs @
                     per_file_chunks (compute_file_id env (path_str f)) (path_str f)
                       (chunk_text body CHUNK_SIZE_WORDS CHUNK_OVERLAP_WORDS),
                all_embeddings := all_embeddings bs @ [embeddings],
                existing_meta := AList.update (path_str f)
                     \<lparr>rec_path = path_str f, rec_file_id = compute_file_id env (path_str f),
                      rec_mtime_ns = st_mtime_ns f, rec_size = st_size f,
                      rec_cache_basename = compute_file_id env (path_str f)\<rparr> (existing_meta bs),
                disk := save_cached_chunks_and_embeddings (disk bs)
                          (compute_file_id env (path_str f))
                          (per_file_chunks (compute_file_id env (path_str f)) (path_str f)
                             (chunk_text body CHUNK_SIZE_WORDS CHUNK_OVERLAP_WORDS))
                          embeddings,
                encode_calls := encode_calls bs @
                     [chunk_text body CHUNK_SIZE_WORDS CHUNK_OVERLAP_WORDS]\<rparr>)"
    by (simp add: recompute_def Let_def)
next
  assume "load_text_from_file f = (None, Some reason)"
  then show "recompute env bs f =
        Inr (bs\<lparr>runtime_unsupported := runtime_unsupported bs @
                     [(path_str f, if reason = [] then ''unreadable'' else reason)]\<rparr>)"
    by (simp add: recompute_def Let_def)
qed

lemma step_meta_other:
  assumes "process_file env bs f = Inr bs'" "q \<noteq> path_str f"
  shows "map_of (existing_meta bs') q = map_of (existing_meta bs) q"
  using assms by (cases rule: process_file_cases) (simp_all add: update_conv')

lemma loop_meta_other:
  "build_loop env bs fs = Inr bs' \<Longrightarrow> q \<notin> path_str ` set fs \<Longrightarrow>
   map_of (existing_meta bs') q = map_of (existing_meta bs) q"
proof (induction fs arbitrary: bs)
  case Nil
  then show ?case by simp
next
  case (Cons f fs)
  from Cons.prems(1) obtain bs1 where s1: "process_file env bs f = Inr bs1"
    and rest: "build_loop env bs1 fs = Inr bs'"
    by (auto split: sum.splits)
  have "q \<noteq> path_str f" "q \<notin> path_str ` set fs" using Cons.prems(2) by auto
  with step_meta_other [OF s1] Cons.IH [OF rest] show ?case by simp
qed

lemma cache_lookup_unsupported:
  "cache_lookup env (bs\<lparr>runtime_unsupported := u\<rparr>) f = cache_lookup env bs f"
  by (auto simp: cache_lookup_def split: option.splits)

lemma recompute_unsupported:
  "recompute env (bs\<lparr>runtime_unsupported := u\<rparr>) f =
     (case recompute env bs f of
        Inl e \<Rightarrow> Inl e
      | Inr b \<Rightarrow> Inr (b\<lparr>runtime_unsupported :=
                          u @ drop (length (runtime_unsupported bs)) (runtime_unsupported b)\<rparr>))"
  by (simp add: recompute_def Let_def split: prod.splits option.splits)

lemma process_file_unsupported:
  "process_file env (bs\<lparr>runtime_unsupported := u\<rparr>) f =
     (case process_file env bs f of
        Inl e \<Rightarrow> Inl e
      | Inr b \<Rightarrow> Inr (b\<lparr>runtime_unsupported :=
                          u @ drop (length (runtime_unsupported bs)) (runtime_unsupported b)\<rparr>))"
  by (simp add: process_file_def cache_lookup_unsupported recompute_unsupported
           split: sum.splits option.splits prod.splits)

lemma step_unsupported_prefix:
  assumes "process_file env bs f = Inr b"
  shows "\<exists>r. runtime_unsupported b = runtime_unsupported bs @ r"
  using assms by (cases rule: process_file_cases) auto

lemma loop_unsupported_prefix:
  "build_loop env bs fs = Inr b \<Longrightarrow> \<exists>r. runtime_unsupported b = runtime_unsupported bs @ r"
proof (induction fs arbitrary: bs)
  case Nil
  then show ?case by simp
next
  case (Cons f fs)
  from Cons.prems obtain bs1 where s1: "process_file env bs f = Inr bs1"
    and rest: "build_loop env bs1 fs = Inr b"
    by (auto split: sum.splits)
  from step_unsupported_prefix [OF s1] Cons.IH [OF rest] show ?case by auto
qed

lemma build_loop_unsupported:
  "build_loop env (bs\<lparr>runtime_unsupported := u\<rparr>) fs =
     (case build_loop env bs fs of
        Inl e \<Rightarrow> Inl e
      | Inr b \<Rightarrow> Inr (b\<lparr>runtime_unsupported :=
                          u @ drop (length (runtime_unsupported bs)) (runtime_unsupported b)\<rparr>))"
proof (induction fs arbitrary: bs u)
  case Nil
  show ?case by simp
next
  case (Cons f fs)
  show ?case
  proof (cases "process_file env bs f")
    case (Inl e)
    then show ?thesis by (simp add: process_file_unsupported)
  next
    case (Inr b1)
    from step_unsupported_prefix [OF Inr] obtain r1 where
      r1: "runtime_unsupported b1 = runtime_unsupported bs @ r1" by blast
    have step: "process_file env (bs\<lparr>runtime_unsupported := u\<rparr>) f
                = Inr (b1\<lparr>runtime_unsupported := u @ r1\<rparr>)"
      using Inr r1 by (simp add: process_file_unsupported)
    show ?thesis
    proof (cases "build_loop env b1 fs")
      case (Inl e)
      with Inr step Cons.IH [where bs = b1 and u = "u @ r1"] show ?thesis by simp
    next
      case rest: (Inr b)
      from loop_unsupported_prefix [OF rest] obtain r2 where
        r2: "runtime_unsupported b = runtime_unsupported b1 @ r2" by blast
      with Inr step rest r1 Cons.IH [where bs = b1 and u = "u @ r1"] show ?thesis by simp
    qed
  qed
qed

lemma build_loop_append:
  "build_loop env bs (xs @ ys) =
     (case build_loop env bs xs of Inl e \<Rightarrow> Inl e | Inr b \<Rightarrow> build_loop env b ys)"
  by (induction xs arbitrary: bs) (auto split: sum.splits)

lemma step_cache_other:
  assumes "process_file env bs f = Inr b" "k \<noteq> compute_file_id env (path_str f)"
  shows "chunk_files (disk b) k = chunk_files (disk bs) k \<and>
         emb_files (disk b) k = emb_files (disk bs) k"
  using assms
  by (cases rule: process_file_cases) (simp_all add: save_cached_chunks_and_embeddings_def)

lemma loop_cache_other:
  "build_loop env bs fs = Inr b \<Longrightarrow>
   k \<notin> (\<lambda>g. compute_file_id env (path_str g)) ` set fs \<Longrightarrow>
   chunk_files (disk b) k = chunk_files (disk bs) k \<and>
   emb_files (disk b) k = emb_files (disk bs) k"
proof (induction fs arbitrary: bs)
  case Nil
  then show ?case by simp
next
  case (Cons f fs)
  from Cons.prems(1) obtain bs1 where s1: "process_file env bs f = Inr bs1"
    and rest: "build_loop env bs1 fs = Inr b"
    by (auto split: sum.splits)
  have "k \<noteq> compute_file_id env (path_str f)"
    "k \<notin> (\<lambda>g. compute_file_id env (path_str g)) ` set fs" using Cons.prems(2) by auto
  with step_cache_other [OF s1] Cons.IH [OF rest] show ?case by simp
qed

lemma finish_build_unsupported:
  assumes "finish_build b others = (md', st', calls)"
  shows "finish_build (b\<lparr>runtime_unsupported := u\<rparr>) others =
           (md'\<lparr>unsupported_files :=
                  u @ map (\<lambda>p. (path_str p, ''extension_not_in_[txt,pdf,doc,docx]'')) others\<rparr>,
            st'\<lparr>metadata_file := Some (md'\<lparr>unsupported_files :=
                  u @ map (\<lambda>p. (path_str p, ''extension_not_in_[txt,pdf,doc,docx]'')) others\<rparr>)\<rparr>,
            calls)"
  using assms by (auto simp: finish_build_def Let_def split: if_splits)

text \<open>
  C4, as the code has it. Take a textbook that is not served from the cache (no matching
  record, or a cache artifact missing) and whose extraction fails, and the same directory
  without it. If the build without it raises, the build with it raises the same; if the
  build without it returns, the build with it returns the same metadata, disk and encoder
  calls, but for one more entry in \<open>unsupported_files\<close>: the file's path and reason, at
  the file's place. So the file is recorded and skipped, and every other file is indexed
  as it would have been.
\<close>

theorem extraction_failure_isolated:
  assumes d1: "discover_textbook_files listing = (pre @ f # post, others)"
      and d2: "discover_textbook_files listing' = (pre @ post, others)"
      and fresh: "compute_file_id env (path_str f)
                    \<notin> (\<lambda>g. compute_file_id env (path_str g)) ` set pre"
      and miss: "\<not> unchanged (load_existing_file_metadata st) f \<or>
                 chunk_files st (compute_file_id env (path_str f)) = None \<or>
                 emb_files st (compute_file_id env (path_str f)) = None"
      and fail: "load_text_from_file f = (None, Some reason)"
  shows "(\<forall>e. build_or_update_index env st listing' = Inl e \<longrightarrow>
              build_or_update_index env st listing = Inl e) \<and>
         (\<forall>md' st' calls.
            build_or_update_index env st listing' = Inr (md', st', calls) \<longrightarrow>
            (\<exists>u1 u2. unsupported_files md' = u1 @ u2 \<and>
               build_or_update_index env st listing =
                 Inr (md'\<lparr>unsupported_files :=
                            u1 @ (path_str f, if reason = [] then ''unreadable'' else reason) # u2\<rparr>,
                      st'\<lparr>metadata_file := Some (md'\<lparr>unsupported_files :=
                            u1 @ (path_str f, if reason = [] then ''unreadable'' else reason) # u2\<rparr>)\<rparr>,
                      calls)))"
proof -
  let ?bs0 = "initial_build_state st"
  let ?entry = "(path_str f, if reason = [] then ''unreadable'' else reason)"
  let ?ext = "map (\<lambda>p. (path_str p, ''extension_not_in_[txt,pdf,doc,docx]'')) others"
  have b: "build_or_update_index env st listing =
           (case build_loop env ?bs0 (pre @ f # post) of
              Inl e \<Rightarrow> Inl e | Inr bs \<Rightarrow> Inr (finish_build bs others))"
    using d1 by (simp add: build_or_update_index_def)
  have b': "build_or_update_index env st listing' =
           (case build_loop env ?bs0 (pre @ post) of
              Inl e \<Rightarrow> Inl e | Inr bs \<Rightarrow> Inr (finish_build bs others))"
    using d2 by (simp add: build_or_update_index_def)
  show ?thesis
  proof (cases "build_loop env ?bs0 pre")
    case (Inl e)
    then show ?thesis by (simp add: b b' build_loop_append)
  next
    case (Inr b1)
    have pth: "path_str f \<notin> path_str ` set pre" using fresh by auto
    have meta: "map_of (existing_meta b1) (path_str f)
                = map_of (load_existing_file_metadata st) (path_str f)"
      using loop_meta_other [OF Inr pth] by (simp add: initial_build_state_def)
    have cache: "chunk_files (disk b1) (compute_file_id env (path_str f))
                   = chunk_files st (compute_file_id env (path_str f))"
      "emb_files (disk b1) (compute_file_id env (path_str f))
                   = emb_files st (compute_file_id env (path_str f))"
      using loop_cache_other [OF Inr fresh] by (simp_all add: initial_build_state_def)
    have "unchanged (existing_meta b1) f = unchanged (load_existing_file_metadata st) f"
      using meta by (simp add: unchanged_def)
    with miss cache have lk: "cache_lookup env b1 f = Inr None"
      by (auto simp: cache_lookup_stale cache_lookup_miss)
    have step: "process_file env b1 f
                = Inr (b1\<lparr>runtime_unsupported := runtime_unsupported b1 @ [?entry]\<rparr>)"
      using lk fail by (simp add: process_file_def recompute_def Let_def)
    have with_f: "build_loop env ?bs0 (pre @ f # post) =
        (case build_loop env b1 post of
           Inl e \<Rightarrow> Inl e
         | Inr bs \<Rightarrow> Inr (bs\<lparr>runtime_unsupported := (runtime_unsupported b1 @ [?entry])
                             @ drop (length (runtime_unsupported b1)) (runtime_unsupported bs)\<rparr>))"
      using Inr step by (simp add: build_loop_append build_loop_unsupported)
    have without_f: "build_loop env ?bs0 (pre @ post) = build_loop env b1 post"
      using Inr by (simp add: build_loop_append)
    show ?thesis
    proof (cases "build_loop env b1 post")
      case (Inl e)
      then show ?thesis by (simp add: b b' with_f without_f)
    next
      case rest: (Inr bs)
      from loop_unsupported_prefix [OF rest] obtain r where
        r: "runtime_unsupported bs = runtime_unsupported b1 @ r" by blast
      obtain md' st' calls where fin: "finish_build bs others = (md', st', calls)"
        by (cases "finish_build bs others") auto
      have unsup: "unsupported_files md' = runtime_unsupported b1 @ (r @ ?ext)"
        using fin r by (auto simp: finish_build_def Let_def split: if_splits)
      have res': "build_or_update_index env st listing' = Inr (md', st', calls)"
        using rest fin by (simp add: b' without_f)
      have res: "build_or_update_index env st listing =
          Inr (md'\<lparr>unsupported_files := runtime_unsupported b1 @ ?entry # (r @ ?ext)\<rparr>,
               st'\<lparr>metadata_file := Some (md'\<lparr>unsupported_files :=
                      runtime_unsupported b1 @ ?entry # (r @ ?ext)\<rparr>)\<rparr>,
               calls)"
        using rest r finish_build_unsupported [OF fin, of "runtime_unsupported b1 @ ?entry # r"]
        by (simp add: b with_f)
      show ?thesis
      proof (intro conjI allI impI)
        fix e assume "build_or_update_index env st listing' = Inl e"
        with res' show "build_or_update_index env st listing = Inl e" by simp
      next
        fix m s c assume "build_or_update_index env st listing' = Inr (m, s, c)"
        with res' have eq: "m = md'" "s = st'" "c = calls" by simp_all
        show "\<exists>u1 u2. unsupported_files m = u1 @ u2 \<and>
               build_or_update_index env st listing =
                 Inr (m\<lparr>unsupported_files := u1 @ ?entry # u2\<rparr>,
                      s\<lparr>metadata_file := Some (m\<lparr>unsupported_files := u1 @ ?entry # u2\<rparr>)\<rparr>,
                      c)"
          unfolding eq using unsup res by blast
      qed
    qed
  qed
qed

text \<open>An encoder that raises on the first textbook: the build raises too.\<close>

theorem encoder_failure_aborts_counterexample:
  "build_or_update_index failing_env empty_store demo_listing = Inl EncodeException"
  by (simp add: build_eval demo_listing_def file_A_def file_B_def)

text \<open>
  A new file with no text: there is no record for it, and it is neither chunked nor
  encoded; it is recorded as unsupported.
\<close>

theorem stale_file_not_embedded_counterexample:
  "map_of (existing_meta (initial_build_state empty_store)) ''/books/empty.txt'' = None \<and>
   process_file length_env (initial_build_state empty_store) (txt_file ''/books/empty.txt'' [])
     = Inr ((initial_build_state empty_store)\<lparr>runtime_unsupported :=
              [(''/books/empty.txt'', ''File contains no extractable text'')]\<rparr>) \<and>
   encode_calls ((initial_build_state empty_store)\<lparr>runtime_unsupported :=
              [(''/books/empty.txt'', ''File contains no extractable text'')]\<rparr>) = [] \<and>
   all_chunks ((initial_build_state empty_store)\<lparr>runtime_unsupported :=
              [(''/books/empty.txt'', ''File contains no extractable text'')]\<rparr>) = []"
  by (simp add: build_eval)


lemma warm_store_nonempty: "cache_nonempty warm_store"
  by (auto simp: cache_nonempty_def warm_store_def empty_store_def split: if_splits)


lemmas demo_defs = demo_listing_def file_A_def file_B_def warm_store_def alpha_chunk_def
  barren_listing_def



lemma barren_loop:
  "build_loop length_env (initial_build_state warm_store)
     (fst (discover_textbook_files barren_listing))
   = Inr ((initial_build_state warm_store)\<lparr>runtime_unsupported :=
            [(''/books/empty.txt'', ''File contains no extractable text'')]\<rparr>)"
  by (simp add: build_eval demo_defs)

theorem empty_corpus_not_built_witness:
  "cache_nonempty warm_store \<and>
   (\<exists>md st' calls.
      build_or_update_index length_env warm_store barren_listing = Inr (md, st', calls) \<and>
      total_chunks md = 0 \<and> \<not> index_built md \<and> metadata_file st' = Some md \<and>
      faiss_index_file st' = faiss_index_file warm_store \<and>
      docstore_file st' = docstore_file warm_store \<and>
      cache_nonempty st')"
proof -
  have z: "all_chunks ((initial_build_state warm_store)\<lparr>runtime_unsupported :=
            [(''/books/empty.txt'', ''File contains no extractable text'')]\<rparr>) = []"
    by (simp add: initial_build_state_def)
  from empty_corpus_not_built [OF warm_store_nonempty barren_loop z] warm_store_nonempty show ?thesis by blast
qed

theorem fingerprint_decides_reuse_witness:
  "unchanged (existing_meta (initial_build_state warm_store)) file_A \<and>
   process_file length_env (initial_build_state warm_store) file_A
     = Inr ((initial_build_state warm_store)
              \<lparr>all_chunks := [alpha_chunk], all_embeddings := [[22]]\<rparr>) \<and>
   \<not> unchanged (existing_meta (initial_build_state warm_store)) file_B \<and>
   load_text_from_file file_B = (Some ''epsilon zeta'', None) \<and>
   (\<exists>bs'. process_file length_env (initial_build_state warm_store) file_B = Inr bs' \<and>
          encode_calls bs' = [[''epsilon zeta'']] \<and>
          map c_text (all_chunks bs') = [''epsilon zeta''] \<and>
          all_embeddings bs' = [[12]])"
proof -
  let ?W = "initial_build_state warm_store"
  have uA: "unchanged (existing_meta ?W) file_A"
    by (simp add: unchanged_def build_eval demo_defs)
  have cA: "chunk_files (disk ?W) (compute_file_id length_env (path_str file_A)) = Some (Parsed [alpha_chunk])"
    "emb_files (disk ?W) (compute_file_id length_env (path_str file_A)) = Some (Parsed [22])"
    by (simp_all add: build_eval demo_defs)
  have uB: "\<not> unchanged (existing_meta ?W) file_B"
    by (simp add: unchanged_def build_eval demo_defs)
  have lB: "load_text_from_file file_B = (Some ''epsilon zeta'', None)"
    by (simp add: build_eval demo_defs)
  have ct: "chunk_text ''epsilon zeta'' CHUNK_SIZE_WORDS CHUNK_OVERLAP_WORDS = [''epsilon zeta'']"
    by (simp add: build_eval)
  have eB: "encode length_env (chunk_text ''epsilon zeta'' CHUNK_SIZE_WORDS CHUNK_OVERLAP_WORDS)
            = Some [12]"
    by (simp add: ct) (simp add: length_env_def)
  note inst = fingerprint_decides_reuse [where bs = ?W and env = length_env]
  have A: "process_file length_env ?W file_A
            = Inr (?W\<lparr>all_chunks := [alpha_chunk], all_embeddings := [[22]]\<rparr>)"
    using inst [where f = file_A and cs = "[alpha_chunk]" and es = "[22]"] uA cA
    by (simp add: initial_build_state_def)
  have B: "\<exists>bs'. process_file length_env ?W file_B = Inr bs' \<and>
          encode_calls bs' = [[''epsilon zeta'']] \<and>
          map c_text (all_chunks bs') = [''epsilon zeta''] \<and>
          all_embeddings bs' = [[12]]"
    using inst [where f = file_B and body = "''epsilon zeta''" and r = None
                  and embeddings = "[12]"] uB lB eB
    by (simp add: ct per_file_chunks_text) (simp add: initial_build_state_def)
  from uA A uB lB B show ?thesis by blast
qed

lemmas stale_defs = built_store_def built_md_def unbuilt_md_def stale_store_def stale_tutor_def
  record_A_def bad_file_def interrupted_listing_def







lemma cold_build_total:
  "\<exists>md st'. build_or_update_index length_env empty_store demo_listing
              = Inr (md, st', [[''alpha beta gamma delta''], [''epsilon zeta'']]) \<and>
            total_chunks md = 2 \<and> unsupported_files md = []"
  by (simp add: build_eval demo_defs)

theorem extraction_failure_isolated_witness:
  "\<exists>md st'. build_or_update_index length_env empty_store interrupted_listing
              = Inr (md, st', [[''alpha beta gamma delta''], [''epsilon zeta'']]) \<and>
            total_chunks md = 2 \<and>
            unsupported_files md = [(''/books/bad.pdf'', ''Error reading file: corrupt'')]"
proof -
  from cold_build_total obtain md' st' where
    b': "build_or_update_index length_env empty_store demo_listing
           = Inr (md', st', [[''alpha beta gamma delta''], [''epsilon zeta'']])"
    and t: "total_chunks md' = 2" and u: "unsupported_files md' = []" by blast
  have d1: "discover_textbook_files interrupted_listing = ([file_A] @ bad_file # [file_B], [])"
    by (simp add: build_eval demo_defs stale_defs)
  have d2: "discover_textbook_files demo_listing = ([file_A] @ [file_B], [])"
    by (simp add: build_eval demo_defs)
  have fresh: "compute_file_id length_env (path_str bad_file)
                 \<notin> (\<lambda>g. compute_file_id length_env (path_str g)) ` set [file_A]"
    by (simp add: build_eval demo_defs stale_defs)
  have miss: "\<not> unchanged (load_existing_file_metadata empty_store) bad_file \<or>
              chunk_files empty_store (compute_file_id length_env (path_str bad_file)) = None \<or>
              emb_files empty_store (compute_file_id length_env (path_str bad_file)) = None"
    by (simp add: empty_store_def)
  have fail: "load_text_from_file bad_file = (None, Some ''Error reading file: corrupt'')"
    by (simp add: build_eval stale_defs)
  from extraction_failure_isolated [OF d1 d2 fresh miss fail] b' obtain u1 u2 where
    us: "unsupported_files md' = u1 @ u2"
    and b: "build_or_update_index length_env empty_store interrupted_listing =
       Inr (md'\<lparr>unsupported_files := u1 @ (path_str bad_file,
                    if ''Error reading file: corrupt'' = [] then ''unreadable''
                    else ''Error reading file: corrupt'') # u2\<rparr>,
            st'\<lparr>metadata_file := Some (md'\<lparr>unsupported_files := u1 @ (path_str bad_file,
                    if ''Error reading file: corrupt'' = [] then ''unreadable''
                    else ''Error reading file: corrupt'') # u2\<rparr>)\<rparr>,
            [[''alpha beta gamma delta''], [''epsilon zeta'']])"
    by blast
  from us u have "u1 = []" "u2 = []" by simp_all
  with b t show ?thesis by (simp add: stale_defs)
qed

end
